theory Spec2Isabelle
  imports Main "HOL-Library.Char_ord" "HOL-Library.List_Lexorder" "HOL-Library.Multiset"
begin

section \<open>The video pipeline: data, effects and environment\<close>

text \<open>
  The embedding follows \<^verbatim>\<open>main.py\<close> and \<^verbatim>\<open>utils.py\<close>. Everything a function does
  besides returning is explicit:
  \<^item> the artifact store is an association list of paths and contents, whose order stands
    for the order in which a directory lists its entries;
  \<^item> the wall clock is a counter of seconds that \<^verbatim>\<open>time.sleep\<close> and the duration of
    remote calls advance;
  \<^item> every remote call, sleep, subprocess and log line is appended to a trace;
  \<^item> a raised exception is the \<open>Inl\<close> of a sum.
  The remote services, the media tool and the library functions the code calls
  (\<^verbatim>\<open>json\<close>, \<^verbatim>\<open>str.format\<close>, \<^verbatim>\<open>base64\<close>) are an environment of oracles.
\<close>

subsection \<open>Exceptions\<close>

text \<open>
  The handlers of the code tell four classes apart: \<^verbatim>\<open>AIRequestError\<close> (with the fixed
  part of its message), \<^verbatim>\<open>requests.exceptions.HTTPError\<close>, \<^verbatim>\<open>json.JSONDecodeError\<close> and
  \<^verbatim>\<open>subprocess.CalledProcessError\<close>. Every other exception is \<open>PyException\<close> with the name
  of its class.
\<close>

datatype error =
    AIRequestError string
  | HTTPError
  | JSONDecodeError
  | CalledProcessError
  | PyException string

subsection \<open>Scenes, requests, events\<close>

text \<open>
  A scene of the decoded script: \<^verbatim>\<open>scene["scene_id"]\<close>, \<^verbatim>\<open>scene["ssml"]\<close>,
  \<^verbatim>\<open>scene["visual_desc"]\<close> and the optional \<^verbatim>\<open>scene.get("transition_hint", "")\<close>.
\<close>

record scene =
  scene_id :: int
  ssml :: string
  visual_desc :: string
  transition_hint :: "string option"

text \<open>
  What is sent to a remote service. \<open>ChatPost\<close>: model, messages (role and content), the
  web search flag and \<^verbatim>\<open>max_tokens\<close> of \<^verbatim>\<open>generate_text\<close>. \<open>SpeechPost\<close>: model, input
  and voice of \<^verbatim>\<open>tts_speech\<close>. \<open>VeoSubmit\<close>: the one instance of the payload of
  \<^verbatim>\<open>generate_video_with_image\<close>, its prompt and, when present, its image (base64 text
  and mime type). \<open>GetJson\<close>: the URL of \<^verbatim>\<open>_get_json\<close>. \<open>DownloadGet\<close>: the URL of
  \<^verbatim>\<open>_download\<close>.
\<close>

datatype request =
    ChatPost string "(string \<times> string) list" bool int
  | SpeechPost string string string
  | VeoSubmit string "(string \<times> string) option"
  | GetJson string
  | DownloadGet string

text \<open>
  The reply to a status query, as far as \<^verbatim>\<open>_poll_until_done\<close> reads it: \<open>Pending\<close> when
  \<^verbatim>\<open>data.get("done")\<close> is falsy, \<open>Done uri\<close> otherwise, with the URI found under
  \<^verbatim>\<open>response.generateVideoResponse.generatedSamples[0].video.uri\<close> (\<open>None\<close> when that
  lookup raises).
\<close>

datatype status = Pending | Done "string option"

text \<open>
  The lines \<^verbatim>\<open>log\<close> writes, one constructor for each call of \<^verbatim>\<open>log\<close> in \<^verbatim>\<open>main.py\<close>,
  with the values its message interpolates (\<open>Traceback\<close> stands for
  \<^verbatim>\<open>log(traceback.format_exc())\<close>).
\<close>

datatype log_line =
    Phase1Searching string
  | Phase1Saved string
  | Phase2Generating
  | Phase2Saved string
  | ScriptApiError error
  | ScriptParseFailed
  | RawOutput string
  | ScriptUnexpectedError
  | Traceback error
  | FrameExtractFailed string
  | SceneStarted int
  | SceneAlreadyExists int
  | TtsStarted int
  | TtsDone string
  | VeoStarted int
  | VeoDone string
  | FrameExtracted int
  | SceneError int error
  | SceneSkipped int
  | MissingScriptFile string
  | NoScenesGenerated
  | CompletedScenes nat
  | MissingSceneOutputs
  | FinalVideoCreated string
  | ConcatError
  | PipelineFinished string

datatype event =
    Log log_line
  | Remote request
  | Sleep nat
  | Subprocess "string list"

record world =
  files :: "(string \<times> string) list"
  clock :: nat
  trace :: "event list"

text \<open>
  The environment. Each oracle is asked with the number of events before the call, so that
  two calls of one run are answered independently.
  \<^item> \<open>post_service\<close>: \<^verbatim>\<open>requests.post\<close>, \<^verbatim>\<open>raise_for_status\<close> and \<^verbatim>\<open>resp.json()\<close> of
    \<^verbatim>\<open>_post_json\<close>; the reply is the field the caller reads (the text of a chat
    completion, the name of a started job), \<open>None\<close> when it is missing or empty.
  \<^item> \<open>get_service\<close>: the same for \<^verbatim>\<open>requests.get\<close> in \<^verbatim>\<open>_get_json\<close>.
  \<^item> \<open>speech_service\<close>, \<open>download_service\<close>: the streamed bodies.
  \<^item> \<open>latency\<close>: the seconds a remote call takes.
  \<^item> \<open>ffmpeg\<close>: \<^verbatim>\<open>subprocess.run(cmd, check=True)\<close>; \<open>Inr\<close> the bytes of the output file
    on exit status 0.
  \<^item> \<open>load_script\<close>: \<^verbatim>\<open>json.load\<close> of the script file.
  \<^item> \<open>json_reformat\<close>: \<^verbatim>\<open>json.dumps(json.loads(s), ensure_ascii=False, indent=2)\<close>,
    \<open>None\<close> when \<^verbatim>\<open>json.loads\<close> raises \<^verbatim>\<open>JSONDecodeError\<close>.
  \<^item> \<open>format_scene_prompt\<close>: \<^verbatim>\<open>base_prompt.format(prev_visual=, transition_hint=,
    main_visual=)\<close>.
  \<^item> \<open>b64encode\<close>: \<^verbatim>\<open>base64.b64encode(bytes).decode("utf-8")\<close>.
\<close>

record env =
  post_service :: "nat \<Rightarrow> request \<Rightarrow> error + string option"
  get_service :: "nat \<Rightarrow> request \<Rightarrow> error + status"
  speech_service :: "nat \<Rightarrow> request \<Rightarrow> error + string"
  download_service :: "nat \<Rightarrow> request \<Rightarrow> error + string"
  latency :: "nat \<Rightarrow> nat"
  ffmpeg :: "nat \<Rightarrow> string list \<Rightarrow> error + string"
  load_script :: "string \<Rightarrow> error + scene list"
  json_reformat :: "string \<Rightarrow> string option"
  format_scene_prompt :: "string \<Rightarrow> string \<Rightarrow> string \<Rightarrow> string \<Rightarrow> error + string"
  b64encode :: "string \<Rightarrow> string"

subsection \<open>Primitive effects\<close>

definition emit :: "event \<Rightarrow> world \<Rightarrow> world" where
  "emit e w = w\<lparr>trace := trace w @ [e]\<rparr>"

text \<open>\<^verbatim>\<open>log(msg)\<close>: the line goes to the console and to the log file, here to the trace.\<close>

definition log :: "log_line \<Rightarrow> world \<Rightarrow> world" where
  "log m w = emit (Log m) w"

text \<open>\<^verbatim>\<open>time.sleep(d)\<close>.\<close>

definition sleep :: "nat \<Rightarrow> world \<Rightarrow> world" where
  "sleep d w = (emit (Sleep d) w)\<lparr>clock := clock w + d\<rparr>"

text \<open>A remote call: recorded, and the clock moves by its duration.\<close>

definition remote :: "env \<Rightarrow> request \<Rightarrow> world \<Rightarrow> world" where
  "remote E req w = (emit (Remote req) w)\<lparr>clock := clock w + latency E (length (trace w))\<rparr>"

text \<open>\<^verbatim>\<open>Path.exists\<close>, \<^verbatim>\<open>os.path.exists\<close>.\<close>

definition exists :: "world \<Rightarrow> string \<Rightarrow> bool" where
  "exists w p = (map_of (files w) p \<noteq> None)"

text \<open>\<^verbatim>\<open>open(p).read()\<close>: a missing file raises \<^verbatim>\<open>FileNotFoundError\<close>.\<close>

definition read_file :: "world \<Rightarrow> string \<Rightarrow> error + string" where
  "read_file w p = (case map_of (files w) p of
      None \<Rightarrow> Inl (PyException ''FileNotFoundError'')
    | Some c \<Rightarrow> Inr c)"

text \<open>\<^verbatim>\<open>open(p, "w")\<close> and the writes: an existing entry is replaced where it stands, a new one
  is listed last.\<close>

fun store :: "string \<Rightarrow> string \<Rightarrow> (string \<times> string) list \<Rightarrow> (string \<times> string) list" where
  "store p c [] = [(p, c)]"
| "store p c ((q, d) # fs) = (if q = p then (p, c) # fs else (q, d) # store p c fs)"

definition write_file :: "string \<Rightarrow> string \<Rightarrow> world \<Rightarrow> world" where
  "write_file p c w = w\<lparr>files := store p c (files w)\<rparr>"

text \<open>\<^verbatim>\<open>Path.unlink(missing_ok=True)\<close>.\<close>

definition unlink :: "string \<Rightarrow> world \<Rightarrow> world" where
  "unlink p w = w\<lparr>files := filter (\<lambda>(q, d). q \<noteq> p) (files w)\<rparr>"

subsection \<open>Transport layer (\<^verbatim>\<open>utils.py\<close>)\<close>

definition DEFAULT_TIMEOUT :: int where
  "DEFAULT_TIMEOUT = 120"

definition DEFAULT_RETRIES :: int where
  "DEFAULT_RETRIES = 3"

text \<open>\<^verbatim>\<open>DEFAULT_BACKOFF = 2.0\<close>; its doublings are whole numbers of seconds.\<close>

definition DEFAULT_BACKOFF :: nat where
  "DEFAULT_BACKOFF = 2"

text \<open>
  \<^verbatim>\<open>_post_json\<close>: one \<^verbatim>\<open>requests.post\<close>, no loop; an exception of the request leaves the
  function as it is (\<^verbatim>\<open>HTTPError\<close> is printed and raised again). \<open>retries\<close> is not used
  by the code.
\<close>

definition post_json :: "env \<Rightarrow> request \<Rightarrow> int \<Rightarrow> int \<Rightarrow> world \<Rightarrow> (error + string option) \<times> world" where
  "post_json E req timeout retries w =
     (post_service E (length (trace w)) req, remote E req w)"

text \<open>
  \<^verbatim>\<open>_get_json\<close>: \<^verbatim>\<open>for attempt in range(1, retries + 1)\<close> with the loop variables
  \<open>attempt\<close> and \<open>backoff\<close>. The first branch is the statement after the loop, reached
  when the range is exhausted (only when \<open>retries < 1\<close>).
\<close>

function get_json_loop ::
  "env \<Rightarrow> string \<Rightarrow> int \<Rightarrow> int \<Rightarrow> nat \<Rightarrow> world \<Rightarrow> (error + status) \<times> world" where
  "get_json_loop E url retries attempt backoff w =
     (if retries < attempt then (Inl (AIRequestError ''GET failed''), w)
      else
        (case get_service E (length (trace w)) (GetJson url) of
           Inr data \<Rightarrow> (Inr data, remote E (GetJson url) w)
         | Inl e \<Rightarrow>
             if attempt < retries
             then get_json_loop E url retries (attempt + 1) (backoff * 2)
                    (sleep backoff (remote E (GetJson url) w))
             else (Inl (AIRequestError ''GET failed after attempts''), remote E (GetJson url) w)))"
  by pat_completeness auto
termination
  by (relation "measure (\<lambda>(E, url, retries, attempt, backoff, w). nat (retries + 1 - attempt))") auto

declare get_json_loop.simps [simp del]

definition get_json :: "env \<Rightarrow> string \<Rightarrow> int \<Rightarrow> int \<Rightarrow> world \<Rightarrow> (error + status) \<times> world" where
  "get_json E url timeout retries w = get_json_loop E url retries 1 DEFAULT_BACKOFF w"

text \<open>The sleeps and the GET requests among a list of events.\<close>

fun sleeps :: "event list \<Rightarrow> nat list" where
  "sleeps [] = []"
| "sleeps (Sleep d # evs) = d # sleeps evs"
| "sleeps (e # evs) = sleeps evs"

fun get_requests :: "event list \<Rightarrow> nat" where
  "get_requests [] = 0"
| "get_requests (Remote (GetJson url) # evs) = Suc (get_requests evs)"
| "get_requests (e # evs) = get_requests evs"

text \<open>The events a run from \<open>w\<close> to \<open>w'\<close> has added.\<close>

definition new_events :: "world \<Rightarrow> world \<Rightarrow> event list" where
  "new_events w w' = drop (length (trace w)) (trace w')"

subsection \<open>Strings and paths\<close>

text \<open>The characters \<^verbatim>\<open>str.strip()\<close> removes (the ASCII ones).\<close>

definition is_space :: "char \<Rightarrow> bool" where
  "is_space c = (c \<in> set [CHR 0x20, CHR 0x09, CHR 0x0A, CHR 0x0B, CHR 0x0C, CHR 0x0D,
                            CHR 0x1C, CHR 0x1D, CHR 0x1E, CHR 0x1F])"

text \<open>\<^verbatim>\<open>s.strip()\<close> and \<^verbatim>\<open>s.strip(chars)\<close>.\<close>

definition strip :: "string \<Rightarrow> string" where
  "strip s = rev (dropWhile is_space (rev (dropWhile is_space s)))"

definition strip_chars :: "string \<Rightarrow> string \<Rightarrow> string" where
  "strip_chars s chars =
     rev (dropWhile (\<lambda>c. c \<in> set chars) (rev (dropWhile (\<lambda>c. c \<in> set chars) s)))"

text \<open>\<^verbatim>\<open>s.rstrip('/')\<close>.\<close>

definition rstrip_slash :: "string \<Rightarrow> string" where
  "rstrip_slash s = rev (dropWhile (\<lambda>c. c = CHR ''/'') (rev s))"

text \<open>\<^verbatim>\<open>s.startswith(p)\<close>, \<^verbatim>\<open>s.endswith(p)\<close>.\<close>

fun startswith :: "string \<Rightarrow> string \<Rightarrow> bool" where
  "startswith s [] = True"
| "startswith [] (p # ps) = False"
| "startswith (c # cs) (p # ps) = (c = p \<and> startswith cs ps)"

definition endswith :: "string \<Rightarrow> string \<Rightarrow> bool" where
  "endswith s p = startswith (rev s) (rev p)"

text \<open>\<^verbatim>\<open>s.lower()\<close>, on ASCII letters.\<close>

definition lower_char :: "char \<Rightarrow> char" where
  "lower_char c = (if CHR ''A'' \<le> c \<and> c \<le> CHR ''Z'' then char_of (of_char c + (32::nat)) else c)"

definition lower :: "string \<Rightarrow> string" where
  "lower s = map lower_char s"

text \<open>
  \<^verbatim>\<open>s.replace(old, new)\<close>: every occurrence, from the left, without overlap; an empty
  \<open>old\<close> matches before every character and at the end.
\<close>

function replace_nonempty :: "string \<Rightarrow> string \<Rightarrow> string \<Rightarrow> string" where
  "replace_nonempty s old new =
     (case s of
        [] \<Rightarrow> []
      | c # cs \<Rightarrow>
          if old \<noteq> [] \<and> startswith s old
          then new @ replace_nonempty (drop (length old) s) old new
          else c # replace_nonempty cs old new)"
  by pat_completeness auto
termination
  by (relation "measure (\<lambda>(s, old, new). length s)") auto

declare replace_nonempty.simps [simp del]

definition replace :: "string \<Rightarrow> string \<Rightarrow> string \<Rightarrow> string" where
  "replace s old new =
     (if old = [] then new @ concat (map (\<lambda>c. c # new) s) else replace_nonempty s old new)"

text \<open>\<^verbatim>\<open>s.replace(old, new, 1)\<close>: the first occurrence only.\<close>

fun replace_first :: "string \<Rightarrow> string \<Rightarrow> string \<Rightarrow> string" where
  "replace_first [] old new = (if old = [] then new else [])"
| "replace_first (c # cs) old new =
     (if startswith (c # cs) old then new @ drop (length old) (c # cs)
      else c # replace_first cs old new)"

text \<open>
  \<^verbatim>\<open>s.split(sep)\<close> for a separator that is not empty (the code splits at a literal; Python
  raises on an empty one, here the string is returned whole).
\<close>

function split :: "string \<Rightarrow> string \<Rightarrow> string list" where
  "split s sep =
     (case s of
        [] \<Rightarrow> [[]]
      | c # cs \<Rightarrow>
          if sep \<noteq> [] \<and> startswith s sep
          then [] # split (drop (length sep) s) sep
          else (case split cs sep of
                  [] \<Rightarrow> [[c]]
                | piece # pieces \<Rightarrow> (c # piece) # pieces))"
  by pat_completeness auto
termination
  by (relation "measure (\<lambda>(s, sep). length s)") auto

declare split.simps [simp del]

text \<open>\<^verbatim>\<open>sub in s\<close>.\<close>

fun contains :: "string \<Rightarrow> string \<Rightarrow> bool" where
  "contains [] sub = (sub = [])"
| "contains (c # cs) sub = (startswith (c # cs) sub \<or> contains cs sub)"

text \<open>\<^verbatim>\<open>str(n)\<close> for \<open>n \<ge> 0\<close>, and the format \<^verbatim>\<open>{n:02d}\<close>: at least two characters, padded
  with zeros on the left, the sign counted in the width.\<close>

definition digit_char :: "nat \<Rightarrow> char" where
  "digit_char d = ''0123456789'' ! d"

fun str_nat :: "nat \<Rightarrow> string" where
  "str_nat n = (if n < 10 then [digit_char n] else str_nat (n div 10) @ [digit_char (n mod 10)])"

declare str_nat.simps [simp del]

definition format_02d :: "int \<Rightarrow> string" where
  "format_02d i =
     (if i < 0 then CHR ''-'' # str_nat (nat (- i))
      else if i < 10 then CHR ''0'' # str_nat (nat i)
      else str_nat (nat i))"

text \<open>\<^verbatim>\<open>d / name\<close> of \<^verbatim>\<open>pathlib\<close> for a relative \<open>name\<close>, and \<^verbatim>\<open>p.parent\<close>.\<close>

definition path_join :: "string \<Rightarrow> string \<Rightarrow> string" where
  "path_join d name = d @ ''/'' @ name"

definition parent :: "string \<Rightarrow> string" where
  "parent p =
     (if CHR ''/'' \<in> set p then rev (drop 1 (dropWhile (\<lambda>c. c \<noteq> CHR ''/'') (rev p)))
      else ''.'')"

subsection \<open>Text and speech (\<^verbatim>\<open>utils.py\<close>)\<close>

text \<open>
  \<^verbatim>\<open>generate_text\<close>, with the messages it prepares. The temperature (a float) is not part
  of the model. The reply is the content the code extracts from \<^verbatim>\<open>choices[0].message\<close>; a
  missing or empty one is the \<^verbatim>\<open>AIRequestError\<close> of the last lines.
\<close>

definition chat_messages ::
  "string \<Rightarrow> string option \<Rightarrow> (string \<times> string) list option \<Rightarrow> (string \<times> string) list" where
  "chat_messages prompt system_prompt messages =
     (case messages of
        Some ms \<Rightarrow> ms
      | None \<Rightarrow>
          (case system_prompt of
             None \<Rightarrow> []
           | Some sp \<Rightarrow> if sp \<noteq> [] then [(''system'', sp)] else [])
          @ [(''user'', prompt)])"

definition generate_text ::
  "env \<Rightarrow> string \<Rightarrow> string \<Rightarrow> string \<Rightarrow> int \<Rightarrow> string option \<Rightarrow> (string \<times> string) list option
     \<Rightarrow> bool \<Rightarrow> world \<Rightarrow> (error + string) \<times> world" where
  "generate_text E prompt api_key model max_tokens system_prompt messages web_search w =
     (let payload = ChatPost model (chat_messages prompt system_prompt messages)
                      web_search max_tokens
      in case post_json E payload DEFAULT_TIMEOUT DEFAULT_RETRIES w of
           (Inl e, w1) \<Rightarrow> (Inl e, w1)
         | (Inr None, w1) \<Rightarrow> (Inl (AIRequestError ''Unexpected text response''), w1)
         | (Inr (Some content), w1) \<Rightarrow>
             if content = [] then (Inl (AIRequestError ''Unexpected text response''), w1)
             else (Inr (strip content), w1))"

text \<open>
  \<^verbatim>\<open>tts_speech\<close>: the audio file is opened only after \<^verbatim>\<open>raise_for_status\<close>. A stream that
  breaks halfway is not modelled.
\<close>

definition tts_speech ::
  "env \<Rightarrow> string \<Rightarrow> string \<Rightarrow> string \<Rightarrow> string \<Rightarrow> string \<Rightarrow> world \<Rightarrow> (error + string) \<times> world" where
  "tts_speech E input_text_or_ssml api_key model voice out_path w =
     (let payload = SpeechPost model input_text_or_ssml voice
      in case speech_service E (length (trace w)) payload of
           Inl e \<Rightarrow> (Inl e, remote E payload w)
         | Inr audio_bytes \<Rightarrow> (Inr out_path, write_file out_path audio_bytes (remote E payload w)))"

definition tts_default_model :: string where
  "tts_default_model = ''gemini-2.5-flash-preview-tts''"

definition tts_default_voice :: string where
  "tts_default_voice = ''Zephyr''"

subsection \<open>The long-running job client (\<^verbatim>\<open>VeoClient\<close>)\<close>

definition GEMINI_V1BETA_BASE :: string where
  "GEMINI_V1BETA_BASE = ''https://api.thucchien.ai/gemini/v1beta''"

definition GEMINI_DOWNLOAD_BASE :: string where
  "GEMINI_DOWNLOAD_BASE = ''https://api.thucchien.ai/gemini/download''"

record veo_client =
  api_key :: string
  base :: string
  download_base :: string

text \<open>\<^verbatim>\<open>VeoClient.__init__\<close>.\<close>

definition VeoClient :: "string \<Rightarrow> veo_client" where
  "VeoClient key =
     \<lparr>api_key = key,
      base = rstrip_slash GEMINI_V1BETA_BASE,
      download_base = rstrip_slash GEMINI_DOWNLOAD_BASE\<rparr>"

text \<open>\<^verbatim>\<open>_start_job\<close>: a reply without a name (\<^verbatim>\<open>if not name\<close>) is an error.\<close>

definition start_job :: "env \<Rightarrow> veo_client \<Rightarrow> request \<Rightarrow> world \<Rightarrow> (error + string) \<times> world" where
  "start_job E self payload w =
     (case post_json E payload DEFAULT_TIMEOUT DEFAULT_RETRIES w of
        (Inl e, w1) \<Rightarrow> (Inl e, w1)
      | (Inr None, w1) \<Rightarrow> (Inl (AIRequestError ''No operation name in response''), w1)
      | (Inr (Some name), w1) \<Rightarrow>
          if name = [] then (Inl (AIRequestError ''No operation name in response''), w1)
          else (Inr name, w1))"

text \<open>A status query never turns the clock back: what the poll loop's termination rests on.\<close>

lemma clock_get_json_loop:
  "clock w \<le> clock (snd (get_json_loop E url retries attempt backoff w))"
proof (induction E url retries attempt backoff w rule: get_json_loop.induct)
  case (1 E url retries attempt backoff w)
  show ?case
  proof (cases "get_service E (length (trace w)) (GetJson url)")
    case (Inr data)
    then show ?thesis
      by (subst get_json_loop.simps) (simp add: remote_def emit_def)
  next
    case (Inl e)
    show ?thesis
    proof (cases "\<not> retries < attempt \<and> attempt < retries")
      case True
      with Inl "1.IH" [of e]
      have "clock (sleep backoff (remote E (GetJson url) w))
              \<le> clock (snd (get_json_loop E url retries attempt backoff w))"
        by (subst get_json_loop.simps) simp
      then show ?thesis
        by (simp add: sleep_def remote_def emit_def)
    next
      case False
      with Inl show ?thesis
        by (subst get_json_loop.simps) (auto simp: remote_def emit_def)
    qed
  qed
qed

lemma clock_get_json:
  "get_json E url timeout retries w = (r, w1) \<Longrightarrow> clock w \<le> clock w1"
  using clock_get_json_loop [of w E url retries 1 DEFAULT_BACKOFF]
  by (simp add: get_json_def)

text \<open>
  \<^verbatim>\<open>_poll_until_done\<close>: \<open>start\<close> is the clock at entry; the body of \<^verbatim>\<open>while True\<close> is
  \<open>poll_loop\<close>.
\<close>

function poll_loop ::
  "env \<Rightarrow> string \<Rightarrow> int \<Rightarrow> nat \<Rightarrow> world \<Rightarrow> (error + string) \<times> world" where
  "poll_loop E op_url timeout_sec start w =
     (if timeout_sec < int (clock w) - int start
      then (Inl (AIRequestError ''Veo operation timed out''), w)
      else
        (case get_json E op_url DEFAULT_TIMEOUT DEFAULT_RETRIES w of
           (Inl e, w1) \<Rightarrow> (Inl e, w1)
         | (Inr (Done None), w1) \<Rightarrow> (Inl (AIRequestError ''Missing video URI''), w1)
         | (Inr (Done (Some uri)), w1) \<Rightarrow> (Inr uri, w1)
         | (Inr Pending, w1) \<Rightarrow> poll_loop E op_url timeout_sec start (sleep 5 w1)))"
  by pat_completeness auto
termination
proof (relation "measure (\<lambda>(E, op_url, timeout_sec, start, w).
                    nat (int start + timeout_sec + 1 - int (clock w)))")
  show "wf (measure (\<lambda>(E, op_url, timeout_sec, start, w).
                    nat (int start + timeout_sec + 1 - int (clock w))))"
    by simp
next
  fix E :: env and op_url :: string and timeout_sec :: int and start :: nat
    and w :: world and x :: "error + status" and w1 :: world and b :: status
  assume guard: "\<not> timeout_sec < int (clock w) - int start"
    and call: "(x, w1) = get_json E op_url DEFAULT_TIMEOUT DEFAULT_RETRIES w"
  from call have "clock w \<le> clock w1"
    using clock_get_json [of E op_url DEFAULT_TIMEOUT DEFAULT_RETRIES w x w1] by simp
  then have "clock w + 5 \<le> clock (sleep 5 w1)"
    by (simp add: sleep_def emit_def)
  with guard show "((E, op_url, timeout_sec, start, sleep 5 w1),
                    (E, op_url, timeout_sec, start, w))
         \<in> measure (\<lambda>(E, op_url, timeout_sec, start, w).
                    nat (int start + timeout_sec + 1 - int (clock w)))"
    by simp
qed

declare poll_loop.simps [simp del]

definition poll_until_done ::
  "env \<Rightarrow> veo_client \<Rightarrow> string \<Rightarrow> int \<Rightarrow> world \<Rightarrow> (error + string) \<times> world" where
  "poll_until_done E self operation_name timeout_sec w =
     poll_loop E (base self @ ''/'' @ operation_name) timeout_sec (clock w) w"

text \<open>\<^verbatim>\<open>_download\<close>.\<close>

definition GOOGLE_PREFIX :: string where
  "GOOGLE_PREFIX = ''https://generativelanguage.googleapis.com/''"

definition download ::
  "env \<Rightarrow> veo_client \<Rightarrow> string \<Rightarrow> string \<Rightarrow> world \<Rightarrow> (error + string) \<times> world" where
  "download E self google_uri out_path w =
     (let relative = (if startswith google_uri GOOGLE_PREFIX
                      then replace google_uri GOOGLE_PREFIX [] else google_uri);
          url = download_base self @ ''/'' @ relative
      in case download_service E (length (trace w)) (DownloadGet url) of
           Inl e \<Rightarrow> (Inl e, remote E (DownloadGet url) w)
         | Inr video_bytes \<Rightarrow>
             (Inr out_path, write_file out_path video_bytes (remote E (DownloadGet url) w)))"

text \<open>
  \<^verbatim>\<open>generate_video_with_image\<close>. The image enters the payload only when \<open>image_path\<close> is
  given, the file exists and its encoding is not empty. \<open>duration\<close> is not used by the code.
\<close>

definition encode_image :: "env \<Rightarrow> world \<Rightarrow> string option \<Rightarrow> (string \<times> string) option" where
  "encode_image E w image_path =
     (case image_path of
        None \<Rightarrow> None
      | Some p \<Rightarrow>
          if p \<noteq> [] \<and> exists w p
          then (case read_file w p of
                  Inl e \<Rightarrow> None
                | Inr image_bytes \<Rightarrow>
                    if b64encode E image_bytes \<noteq> []
                    then Some (b64encode E image_bytes,
                               if endswith (lower p) ''.png'' then ''image/png'' else ''image/jpeg'')
                    else None)
          else None)"

definition generate_video_with_image ::
  "env \<Rightarrow> veo_client \<Rightarrow> string \<Rightarrow> string \<Rightarrow> string option \<Rightarrow> int \<Rightarrow> world
     \<Rightarrow> (error + string) \<times> world" where
  "generate_video_with_image E self prompt out_path image_path duration w =
     (if strip prompt = [] then (Inl (PyException ''ValueError''), w)
      else
        let payload = VeoSubmit prompt (encode_image E w image_path)
        in case start_job E self payload w of
             (Inl e, w1) \<Rightarrow> (Inl e, w1)
           | (Inr operation_name, w1) \<Rightarrow>
               (case poll_until_done E self operation_name 600 w1 of
                  (Inl e, w2) \<Rightarrow> (Inl e, w2)
                | (Inr video_uri, w2) \<Rightarrow> download E self video_uri out_path w2))"

subsection \<open>The media tool\<close>

text \<open>
  \<^verbatim>\<open>subprocess.run(cmd, check=True)\<close> of a command that writes \<open>out\<close>: the output file
  appears when the command succeeds.
\<close>

definition run :: "env \<Rightarrow> string list \<Rightarrow> string \<Rightarrow> world \<Rightarrow> (error + unit) \<times> world" where
  "run E cmd out w =
     (case ffmpeg E (length (trace w)) cmd of
        Inl e \<Rightarrow> (Inl e, emit (Subprocess cmd) w)
      | Inr out_bytes \<Rightarrow> (Inr (), write_file out out_bytes (emit (Subprocess cmd) w)))"

text \<open>\<^verbatim>\<open>concat_videos\<close> (\<^verbatim>\<open>utils.py\<close>): the four unlinks are its last statements.\<close>

definition concat_line :: "string \<Rightarrow> string" where
  "concat_line v = ''file '' @ [CHR 0x27] @ v @ [CHR 0x27, CHR 0x0A]"

definition concat_videos ::
  "env \<Rightarrow> string list \<Rightarrow> string list \<Rightarrow> string \<Rightarrow> world \<Rightarrow> (error + unit) \<times> world" where
  "concat_videos E video_list audio_list output_path w =
     (let tmp_file = ''concat_list.txt'';
          w1 = write_file tmp_file (concat (map concat_line video_list)) w;
          merged = ''merged_temp.mp4''
      in case run E [''ffmpeg'', ''-f'', ''concat'', ''-safe'', ''0'',
                     ''-i'', tmp_file, ''-c'', ''copy'', merged] merged w1 of
           (Inl e, w2) \<Rightarrow> (Inl e, w2)
         | (Inr u, w2) \<Rightarrow>
             let audio_concat = ''concat_audio.txt'';
                 w3 = write_file audio_concat (concat (map concat_line audio_list)) w2;
                 merged_audio = ''merged_audio.mp3''
             in case run E [''ffmpeg'', ''-f'', ''concat'', ''-safe'', ''0'',
                            ''-i'', audio_concat, ''-c'', ''copy'', merged_audio] merged_audio w3 of
                  (Inl e, w4) \<Rightarrow> (Inl e, w4)
                | (Inr u, w4) \<Rightarrow>
                    (case run E [''ffmpeg'', ''-i'', merged, ''-i'', merged_audio,
                                 ''-c:v'', ''copy'', ''-map'', ''0:v:0'', ''-map'', ''1:a:0'',
                                 ''-shortest'', output_path] output_path w4 of
                       (Inl e, w5) \<Rightarrow> (Inl e, w5)
                     | (Inr u, w5) \<Rightarrow>
                         (Inr (), unlink merged_audio (unlink merged
                                    (unlink audio_concat (unlink tmp_file w5))))))"

text \<open>\<^verbatim>\<open>extract_last_frame\<close> (\<^verbatim>\<open>main.py\<close>): both handlers only log.\<close>

definition extract_last_frame :: "env \<Rightarrow> string \<Rightarrow> string \<Rightarrow> world \<Rightarrow> world" where
  "extract_last_frame E video_path frame_path w =
     (case run E [''ffmpeg'', ''-sseof'', ''-1'', ''-i'', video_path, ''-update'', ''1'',
                  ''-q:v'', ''2'', frame_path, ''-y''] frame_path w of
        (Inr u, w1) \<Rightarrow> w1
      | (Inl CalledProcessError, w1) \<Rightarrow> log (FrameExtractFailed video_path) w1
      | (Inl e, w1) \<Rightarrow> log (Traceback e) w1)"

subsection \<open>The scene orchestrator (\<^verbatim>\<open>main.py\<close>)\<close>

record scene_result =
  audio :: string
  video :: string
  frame :: string

text \<open>The first line of the introduction prompt of scene 1 (the literal goes on for six
  more lines).\<close>

definition intro_prompt :: string where
  "intro_prompt = ''Generate a cinematic 8-second news introduction scene''"

definition audio_path_of :: "string \<Rightarrow> int \<Rightarrow> string" where
  "audio_path_of out_dir sid =
     path_join (path_join out_dir ''audio'') (''scene_'' @ format_02d sid @ ''.mp3'')"

definition video_path_of :: "string \<Rightarrow> int \<Rightarrow> string" where
  "video_path_of out_dir sid =
     path_join (path_join out_dir ''video'') (''scene_'' @ format_02d sid @ ''.mp4'')"

definition frame_path_of :: "string \<Rightarrow> int \<Rightarrow> string" where
  "frame_path_of out_dir sid =
     path_join (path_join out_dir ''frames'') (''scene_'' @ format_02d sid @ ''_last.png'')"

text \<open>The \<^verbatim>\<open>except Exception\<close> of \<^verbatim>\<open>process_scene\<close>.\<close>

definition scene_failed :: "int \<Rightarrow> error \<Rightarrow> world \<Rightarrow> scene_result option \<times> world" where
  "scene_failed sid e w = (None, log (Traceback e) (log (SceneError sid e) w))"

text \<open>
  The prompt and the reference image of the Veo step. For a scene other than scene 1 the
  path of the previous scene's last frame is computed and then overwritten by
  \<^verbatim>\<open>image_ref = None\<close>.
\<close>

definition scene_prompt ::
  "env \<Rightarrow> scene \<Rightarrow> scene option \<Rightarrow> string \<Rightarrow> world \<Rightarrow> error + string \<times> string option" where
  "scene_prompt E scene prev_scene out_dir w =
     (if scene_id scene = 1 then Inr (intro_prompt, None)
      else
        (case read_file w ''prompts/scene_prompt.txt'' of
           Inl e \<Rightarrow> Inl e
         | Inr base_prompt \<Rightarrow>
             (case format_scene_prompt E base_prompt
                     (case prev_scene of None \<Rightarrow> [] | Some prev \<Rightarrow> visual_desc prev)
                     (case transition_hint scene of None \<Rightarrow> [] | Some hint \<Rightarrow> hint)
                     (visual_desc scene) of
                Inl e \<Rightarrow> Inl e
              | Inr prompt \<Rightarrow>
                  let image_ref = (case prev_scene of
                                     None \<Rightarrow> None
                                   | Some prev \<Rightarrow> Some (frame_path_of out_dir (scene_id prev)));
                      image_ref = None
                  in Inr (prompt, image_ref))))"

definition process_scene ::
  "env \<Rightarrow> scene \<Rightarrow> scene option \<Rightarrow> string \<Rightarrow> veo_client \<Rightarrow> string \<Rightarrow> world
     \<Rightarrow> scene_result option \<times> world" where
  "process_scene E scene prev_scene key veo out_dir w =
     (let sid = scene_id scene;
          audio_path = audio_path_of out_dir sid;
          video_path = video_path_of out_dir sid;
          frame_path = frame_path_of out_dir sid;
          result = \<lparr>audio = audio_path, video = video_path, frame = frame_path\<rparr>;
          w0 = log (SceneStarted sid) w
      in if exists w0 audio_path \<and> exists w0 video_path
         then (Some result, log (SceneAlreadyExists sid) w0)
         else
           (case tts_speech E (ssml scene) key tts_default_model tts_default_voice audio_path
                   (log (TtsStarted sid) w0) of
              (Inl e, w1) \<Rightarrow> scene_failed sid e w1
            | (Inr p, w1) \<Rightarrow>
                let w2 = log (TtsDone audio_path) w1
                in (case scene_prompt E scene prev_scene out_dir w2 of
                      Inl e \<Rightarrow> scene_failed sid e w2
                    | Inr (prompt, image_ref) \<Rightarrow>
                        (case generate_video_with_image E veo prompt video_path
                                (case image_ref of
                                   None \<Rightarrow> None
                                 | Some ref \<Rightarrow> if exists w2 ref then Some ref else None)
                                8 (log (VeoStarted sid) w2) of
                           (Inl e, w3) \<Rightarrow> scene_failed sid e w3
                         | (Inr p, w3) \<Rightarrow>
                             (Some result,
                              log (FrameExtracted sid)
                                (extract_last_frame E video_path frame_path
                                   (log (VeoDone video_path) w3)))))))"

text \<open>
  The \<^verbatim>\<open>for\<close> loop of \<^verbatim>\<open>generate_scenes\<close> over the scenes it is given, with its variables
  \<open>prev_scene\<close> and \<open>generated\<close>.
\<close>

fun scenes_loop ::
  "env \<Rightarrow> string \<Rightarrow> veo_client \<Rightarrow> string \<Rightarrow> scene list \<Rightarrow> scene option \<Rightarrow> scene_result list
     \<Rightarrow> world \<Rightarrow> scene_result list \<times> world" where
  "scenes_loop E key veo out_dir [] prev_scene generated w = (generated, w)"
| "scenes_loop E key veo out_dir (scene # rest) prev_scene generated w =
     (case process_scene E scene prev_scene key veo out_dir w of
        (Some result, w1) \<Rightarrow>
          scenes_loop E key veo out_dir rest (Some scene) (generated @ [result]) w1
      | (None, w1) \<Rightarrow>
          scenes_loop E key veo out_dir rest prev_scene generated
            (log (SceneSkipped (scene_id scene)) w1))"

text \<open>
  \<^verbatim>\<open>generate_scenes\<close>: the loop runs over \<^verbatim>\<open>scenes[:2]\<close>. An exception of \<^verbatim>\<open>json.load\<close>
  is not caught.
\<close>

definition generate_scenes ::
  "env \<Rightarrow> string \<Rightarrow> string \<Rightarrow> string \<Rightarrow> world \<Rightarrow> (error + unit) \<times> world" where
  "generate_scenes E key out_dir script_path w =
     (if \<not> exists w script_path then (Inr (), log (MissingScriptFile script_path) w)
      else
        (case read_file w script_path of
           Inl e \<Rightarrow> (Inl e, w)
         | Inr script_text \<Rightarrow>
             (case load_script E script_text of
                Inl e \<Rightarrow> (Inl e, w)
              | Inr scenes \<Rightarrow>
                  (case scenes_loop E key (VeoClient key) out_dir (take 2 scenes) None [] w of
                     (generated, w1) \<Rightarrow>
                       if generated = [] then (Inr (), log NoScenesGenerated w1)
                       else (Inr (), log (CompletedScenes (length generated)) w1)))))"

subsection \<open>Concatenation (\<^verbatim>\<open>main.py\<close>)\<close>

text \<open>
  \<^verbatim>\<open>sorted(dir.glob("scene_*" + ext))\<close>: the names of the store's entries in \<open>dir\<close> that
  match, in the order of the listing, then sorted. Paths of one directory compare as their
  names do.
\<close>

definition entry_name :: "string \<Rightarrow> string \<Rightarrow> string option" where
  "entry_name dir p =
     (if startswith p (dir @ ''/'') \<and> CHR ''/'' \<notin> set (drop (length dir + 1) p)
      then Some (drop (length dir + 1) p) else None)"

definition glob_scenes :: "world \<Rightarrow> string \<Rightarrow> string \<Rightarrow> string list" where
  "glob_scenes w dir ext =
     filter (\<lambda>n. startswith n ''scene_'' \<and> endswith n ext \<and> 6 + length ext \<le> length n)
       (List.map_filter (\<lambda>(p, c). entry_name dir p) (files w))"

definition sorted_scenes :: "world \<Rightarrow> string \<Rightarrow> string \<Rightarrow> string list" where
  "sorted_scenes w dir ext = map (path_join dir) (sort (glob_scenes w dir ext))"

definition concat_final :: "env \<Rightarrow> string \<Rightarrow> world \<Rightarrow> world" where
  "concat_final E out_dir w =
     (let audio_dir = path_join out_dir ''audio'';
          video_dir = path_join out_dir ''video'';
          final_path = path_join out_dir ''final_video.mp4'';
          videos = sorted_scenes w video_dir ''.mp4'';
          audios = sorted_scenes w audio_dir ''.mp3''
      in if videos = [] \<or> audios = [] then log MissingSceneOutputs w
         else
           (case concat_videos E videos audios final_path w of
              (Inr u, w1) \<Rightarrow> log (FinalVideoCreated final_path) w1
            | (Inl e, w1) \<Rightarrow> log (Traceback e) (log ConcatError w1)))"

subsection \<open>The script stage and the driver (\<^verbatim>\<open>main.py\<close>)\<close>

text \<open>
  The three handlers of \<^verbatim>\<open>generate_full_script\<close>. \<open>text\<close> is the local variable of that
  name, \<open>None\<close> while it is not assigned: the second handler reads it.
\<close>

definition script_failed :: "error \<Rightarrow> string option \<Rightarrow> world \<Rightarrow> (error + unit) \<times> world" where
  "script_failed e text w =
     (case e of
        AIRequestError m \<Rightarrow> (Inr (), log (Traceback e) (log (ScriptApiError e) w))
      | JSONDecodeError \<Rightarrow>
          (case text of
             None \<Rightarrow> (Inl (PyException ''UnboundLocalError''), log ScriptParseFailed w)
           | Some t \<Rightarrow> (Inr (), log (RawOutput (take 400 t)) (log ScriptParseFailed w)))
      | _ \<Rightarrow> (Inr (), log (Traceback e) (log ScriptUnexpectedError w)))"

definition fence :: string where
  "fence = [CHR 0x60, CHR 0x60, CHR 0x60]"

text \<open>The cleaning of the model's answer before \<^verbatim>\<open>json.loads\<close>.\<close>

definition clean_answer :: "string \<Rightarrow> error + string" where
  "clean_answer text =
     (let cleaned = strip text
      in if startswith cleaned fence
         then (case split cleaned fence of
                 first # second # pieces \<Rightarrow>
                   let cleaned = strip_chars (replace_first second ''json'' []) [CHR 0x20, CHR 0x0A]
                   in if contains cleaned fence
                      then (case split cleaned fence of
                              [] \<Rightarrow> Inl (PyException ''IndexError'')
                            | piece # pieces \<Rightarrow> Inr (strip piece))
                      else Inr cleaned
               | _ \<Rightarrow> Inl (PyException ''IndexError''))
         else Inr cleaned)"

text \<open>Phase 2 of \<^verbatim>\<open>generate_full_script\<close>, from the reading of the search context on.\<close>

definition script_phase2 ::
  "env \<Rightarrow> string \<Rightarrow> string \<Rightarrow> string \<Rightarrow> world \<Rightarrow> (error + unit) \<times> world" where
  "script_phase2 E topic key out_path w =
     (case read_file w (path_join (parent out_path) ''search_context.txt'') of
        Inl e \<Rightarrow> script_failed e None w
      | Inr search_results \<Rightarrow>
          let w1 = log Phase2Generating w
          in (case read_file w1 ''prompts/compose_prompt.txt'' of
                Inl e \<Rightarrow> script_failed e None w1
              | Inr compose_prompt \<Rightarrow>
                  let final_prompt =
                        replace (replace compose_prompt ''{topic}'' topic) ''{context}'' search_results;
                      prompt = final_prompt
                        @ [CHR 0x0A, CHR 0x0A]
                        @ ''Here is the factual context gathered from the web:'' @ [CHR 0x0A]
                        @ take 4000 search_results
                  in (case generate_text E prompt key ''gemini-2.5-flash'' 10000 None None False w1 of
                        (Inl e, w2) \<Rightarrow> script_failed e None w2
                      | (Inr text, w2) \<Rightarrow>
                          (case clean_answer text of
                             Inl e \<Rightarrow> script_failed e (Some text) w2
                           | Inr cleaned \<Rightarrow>
                               (case json_reformat E cleaned of
                                  None \<Rightarrow> script_failed JSONDecodeError (Some text) w2
                                | Some doc \<Rightarrow>
                                    (Inr (), log (Phase2Saved out_path)
                                               (write_file out_path doc w2)))))))"

text \<open>
  \<^verbatim>\<open>generate_full_script\<close>. Nothing in it asks whether \<open>out_path\<close> exists; \<open>skip_search\<close>
  skips the web search only.
\<close>

definition generate_full_script ::
  "env \<Rightarrow> string \<Rightarrow> string \<Rightarrow> string \<Rightarrow> bool \<Rightarrow> world \<Rightarrow> (error + unit) \<times> world" where
  "generate_full_script E topic key out_path skip_search w =
     (case read_file w ''prompts/search_prompt.txt'' of
        Inl e \<Rightarrow> script_failed e None w
      | Inr template \<Rightarrow>
          let search_prompt = replace template ''{topic}'' topic;
              w1 = log (Phase1Searching topic) w
          in if \<not> skip_search
             then (case generate_text E search_prompt key ''gemini-2.5-flash'' 2048 None None True w1 of
                     (Inl e, w2) \<Rightarrow> script_failed e None w2
                   | (Inr search_results, w2) \<Rightarrow>
                       let search_file = path_join (parent out_path) ''search_context.txt''
                       in script_phase2 E topic key out_path
                            (log (Phase1Saved search_file)
                               (write_file search_file search_results w2)))
             else script_phase2 E topic key out_path w1)"

text \<open>The stage selector of the command line, and the driver after \<^verbatim>\<open>init_environment\<close>
  has returned \<open>API_KEY\<close> and \<open>OUTPUT_DIR\<close>. An exception that leaves a stage ends the run.\<close>

datatype stage = ScriptStage | ScenesStage | ConcatStage | AllStages

definition stage_name :: "stage \<Rightarrow> string" where
  "stage_name st =
     (case st of ScriptStage \<Rightarrow> ''script'' | ScenesStage \<Rightarrow> ''scenes''
               | ConcatStage \<Rightarrow> ''concat'' | AllStages \<Rightarrow> ''all'')"

definition script_path_of :: "string \<Rightarrow> string" where
  "script_path_of OUTPUT_DIR = path_join (path_join OUTPUT_DIR ''scripts'') ''script.json''"

definition main :: "env \<Rightarrow> string \<Rightarrow> stage \<Rightarrow> string \<Rightarrow> string \<Rightarrow> world \<Rightarrow> (error + unit) \<times> world" where
  "main E topic st API_KEY OUTPUT_DIR w =
     (let script_path = script_path_of OUTPUT_DIR
      in case (if st \<in> set [ScriptStage, AllStages]
               then generate_full_script E topic API_KEY script_path True w
               else (Inr (), w)) of
           (Inl e, w1) \<Rightarrow> (Inl e, w1)
         | (Inr u, w1) \<Rightarrow>
             (case (if st \<in> set [ScenesStage, AllStages]
                    then generate_scenes E API_KEY OUTPUT_DIR script_path w1
                    else (Inr (), w1)) of
                (Inl e, w2) \<Rightarrow> (Inl e, w2)
              | (Inr u, w2) \<Rightarrow>
                  let w3 = (if st \<in> set [ConcatStage, AllStages]
                            then concat_final E OUTPUT_DIR w2 else w2)
                  in (Inr (), log (PipelineFinished (stage_name st)) w3)))"

subsection \<open>Observations on traces\<close>

text \<open>What a list of events holds: the number of remote calls and of runs of the media
  tool, the scenes whose processing has started, and the image of every job submission.\<close>

fun remote_calls :: "event list \<Rightarrow> nat" where
  "remote_calls [] = 0"
| "remote_calls (Remote req # evs) = Suc (remote_calls evs)"
| "remote_calls (e # evs) = remote_calls evs"

fun media_tool_runs :: "event list \<Rightarrow> nat" where
  "media_tool_runs [] = 0"
| "media_tool_runs (Subprocess cmd # evs) = Suc (media_tool_runs evs)"
| "media_tool_runs (e # evs) = media_tool_runs evs"

fun started :: "event list \<Rightarrow> int list" where
  "started [] = []"
| "started (Log (SceneStarted sid) # evs) = sid # started evs"
| "started (e # evs) = started evs"

fun submitted_images :: "event list \<Rightarrow> (string \<times> string) option list" where
  "submitted_images [] = []"
| "submitted_images (Remote (VeoSubmit prompt img) # evs) = img # submitted_images evs"
| "submitted_images (e # evs) = submitted_images evs"

text \<open>
  The events each part of the scenes stage may add: a status poll (GET requests and sleeps),
  a video job without reference image, the steps of one scene, and the stage as a whole.
\<close>

fun poll_event :: "event \<Rightarrow> bool" where
  "poll_event (Remote (GetJson url)) = True"
| "poll_event (Sleep d) = True"
| "poll_event e = False"

fun job_event :: "event \<Rightarrow> bool" where
  "job_event (Remote (VeoSubmit prompt img)) = (img = None)"
| "job_event (Remote (GetJson url)) = True"
| "job_event (Remote (DownloadGet url)) = True"
| "job_event (Sleep d) = True"
| "job_event e = False"

fun scene_log :: "log_line \<Rightarrow> bool" where
  "scene_log (SceneAlreadyExists sid) = True"
| "scene_log (TtsStarted sid) = True"
| "scene_log (TtsDone p) = True"
| "scene_log (VeoStarted sid) = True"
| "scene_log (VeoDone p) = True"
| "scene_log (FrameExtracted sid) = True"
| "scene_log (SceneError sid e) = True"
| "scene_log (Traceback e) = True"
| "scene_log (FrameExtractFailed p) = True"
| "scene_log m = False"

fun scene_event :: "event \<Rightarrow> bool" where
  "scene_event (Log m) = scene_log m"
| "scene_event (Remote (SpeechPost model input voice)) = True"
| "scene_event (Remote (ChatPost model messages web_search max_tokens)) = False"
| "scene_event (Subprocess cmd) = True"
| "scene_event e = job_event e"

text \<open>\<open>w'\<close> has the trace of \<open>w\<close> and, after it, only events that satisfy \<open>P\<close>.\<close>

definition extends :: "(event \<Rightarrow> bool) \<Rightarrow> world \<Rightarrow> world \<Rightarrow> bool" where
  "extends P w w' = (\<exists>evs. trace w' = trace w @ evs \<and> list_all P evs)"

fun stage_event :: "event \<Rightarrow> bool" where
  "stage_event (Log (SceneStarted sid)) = True"
| "stage_event (Log (SceneSkipped sid)) = True"
| "stage_event (Log (MissingScriptFile p)) = True"
| "stage_event (Log NoScenesGenerated) = True"
| "stage_event (Log (CompletedScenes n)) = True"
| "stage_event e = scene_event e"

text \<open>The events of the script stage (log lines and chat requests), log lines alone, and
  the events that are no remote call.\<close>

fun script_event :: "event \<Rightarrow> bool" where
  "script_event (Log m) = True"
| "script_event (Remote (ChatPost model messages web_search max_tokens)) = True"
| "script_event e = False"

fun log_event :: "event \<Rightarrow> bool" where
  "log_event (Log m) = True"
| "log_event e = False"

fun local_event :: "event \<Rightarrow> bool" where
  "local_event (Remote req) = False"
| "local_event e = True"

subsection \<open>Concrete environments and stores\<close>

text \<open>An empty store at time 0, and an environment in which every service and the media
  tool fail.\<close>

definition empty_world :: world where
  "empty_world = \<lparr>files = [], clock = 0, trace = []\<rparr>"

definition failing_env :: env where
  "failing_env =
     \<lparr>post_service = (\<lambda>n req. Inl HTTPError),
      get_service = (\<lambda>n req. Inl HTTPError),
      speech_service = (\<lambda>n req. Inl HTTPError),
      download_service = (\<lambda>n req. Inl HTTPError),
      latency = (\<lambda>n. 0),
      ffmpeg = (\<lambda>n cmd. Inl CalledProcessError),
      load_script = (\<lambda>s. Inl JSONDecodeError),
      json_reformat = (\<lambda>s. None),
      format_scene_prompt = (\<lambda>t p h m. Inl (PyException ''KeyError'')),
      b64encode = (\<lambda>s. s)\<rparr>"

text \<open>Three scenes; an environment in which everything succeeds at once; stores for the
  runs below.\<close>

definition scene1 :: scene where
  "scene1 = \<lparr>scene_id = 1, ssml = ''one'', visual_desc = ''studio'', transition_hint = None\<rparr>"

definition scene2 :: scene where
  "scene2 = \<lparr>scene_id = 2, ssml = ''two'', visual_desc = ''street'', transition_hint = Some ''cut''\<rparr>"

definition working_env :: env where
  "working_env =
     \<lparr>post_service = (\<lambda>n req. Inr (Some ''operations/1'')),
      get_service = (\<lambda>n req. Inr (Done (Some ''https://generativelanguage.googleapis.com/v1''))),
      speech_service = (\<lambda>n req. Inr ''mp3''),
      download_service = (\<lambda>n req. Inr ''mp4''),
      latency = (\<lambda>n. 1),
      ffmpeg = (\<lambda>n cmd. Inr ''out''),
      load_script = (\<lambda>s. Inr [scene1, scene2]),
      json_reformat = (\<lambda>s. Some s),
      format_scene_prompt = (\<lambda>t p h m. Inr (t @ p @ h @ m)),
      b64encode = (\<lambda>s. s)\<rparr>"

definition studio_world :: world where
  "studio_world =
     \<lparr>files = [(''prompts/scene_prompt.txt'', ''Scene: ''), (''out/frames/scene_01_last.png'', ''png'')],
      clock = 0, trace = []\<rparr>"

definition scene3 :: scene where
  "scene3 = \<lparr>scene_id = 3, ssml = ''three'', visual_desc = ''harbour'', transition_hint = None\<rparr>"

definition resumed_world :: world where
  "resumed_world =
     \<lparr>files = [(''out/audio/scene_01.mp3'', ''mp3''), (''out/video/scene_01.mp4'', ''mp4'')],
      clock = 7, trace = []\<rparr>"

definition script_world :: world where
  "script_world = \<lparr>files = [(''out/scripts/script.json'', ''[]'')], clock = 0, trace = []\<rparr>"

definition three_scenes_env :: env where
  "three_scenes_env = failing_env\<lparr>load_script := (\<lambda>s. Inr [scene1, scene2, scene3])\<rparr>"

text \<open>Stores for the concat stage: one without a video artifact, one with a single scene,
  one with scenes 99 and 100, one whose listing is out of order; and a media tool whose
  last step, the muxing, fails.\<close>

definition audio_only_world :: world where
  "audio_only_world = \<lparr>files = [(''out/audio/scene_01.mp3'', ''mp3'')], clock = 0, trace = []\<rparr>"

definition mux_failing_env :: env where
  "mux_failing_env =
     working_env\<lparr>ffmpeg := (\<lambda>n cmd. if ''-shortest'' \<in> set cmd then Inl CalledProcessError
                                   else Inr ''merged'')\<rparr>"

definition one_scene_world :: world where
  "one_scene_world =
     \<lparr>files = [(''out/audio/scene_01.mp3'', ''mp3''), (''out/video/scene_01.mp4'', ''mp4'')],
      clock = 0, trace = []\<rparr>"

definition hundred_world :: world where
  "hundred_world =
     \<lparr>files = [(''out/video/scene_99.mp4'', ''v99''), (''out/video/scene_100.mp4'', ''v100''),
               (''out/audio/scene_99.mp3'', ''a99''), (''out/audio/scene_100.mp3'', ''a100'')],
      clock = 0, trace = []\<rparr>"

definition shuffled_world :: world where
  "shuffled_world =
     \<lparr>files = [(''out/video/scene_10.mp4'', ''v10''), (''out/audio/scene_02.mp3'', ''a2''),
               (''out/video/scene_02.mp4'', ''v2''), (''out/audio/scene_10.mp3'', ''a10''),
               (''out/video/scene_01.mp4'', ''v1''), (''out/audio/scene_01.mp3'', ''a1'')],
      clock = 0, trace = []\<rparr>"

text \<open>Status services that never report done: one that takes 100 seconds for a request and
  fails every first attempt, one that answers at once and fails a single request, one that
  takes a second and never fails.\<close>

definition slow_flaky_env :: env where
  "slow_flaky_env =
     failing_env\<lparr>get_service := (\<lambda>n req. if n mod 4 = 0 then Inl HTTPError else Inr Pending),
                  latency := (\<lambda>n. 100)\<rparr>"

definition flaky_env :: env where
  "flaky_env =
     failing_env\<lparr>get_service := (\<lambda>n req. if n = 4 then Inl HTTPError else Inr Pending)\<rparr>"

definition pending_env :: env where
  "pending_env = failing_env\<lparr>get_service := (\<lambda>n req. Inr Pending), latency := (\<lambda>n. 1)\<rparr>"

text \<open>A script of five scenes, and services that work except that the speech synthesis of
  scene 3 fails.\<close>

definition scene4 :: scene where
  "scene4 = \<lparr>scene_id = 4, ssml = ''four'', visual_desc = ''market'', transition_hint = None\<rparr>"

definition scene5 :: scene where
  "scene5 = \<lparr>scene_id = 5, ssml = ''five'', visual_desc = ''studio'', transition_hint = Some ''fade''\<rparr>"

definition five_scenes :: "scene list" where
  "five_scenes = [scene1, scene2, scene3, scene4, scene5]"

definition third_fails_env :: env where
  "third_fails_env =
     working_env\<lparr>speech_service :=
                    (\<lambda>n req. case req of
                                 SpeechPost model input voice \<Rightarrow>
                                   if input = ssml scene3 then Inl HTTPError else Inr ''mp3''
                               | _ \<Rightarrow> Inr ''mp3''),
                  load_script := (\<lambda>s. Inr five_scenes)\<rparr>"

definition five_world :: world where
  "five_world =
     \<lparr>files = [(''out/scripts/script.json'', ''[]''), (''prompts/scene_prompt.txt'', ''Scene: '')],
      clock = 0, trace = []\<rparr>"

text \<open>A text service that answers with an empty script, and a store that already holds a
  script, the search context and the two prompts of the script stage.\<close>

definition chat_env :: env where
  "chat_env = working_env\<lparr>post_service := (\<lambda>n req. Inr (Some ''[]''))\<rparr>"

definition script_present_world :: world where
  "script_present_world =
     \<lparr>files = [(''out/scripts/script.json'', ''[old]''),
               (''out/scripts/search_context.txt'', ''facts''),
               (''prompts/search_prompt.txt'', ''Search {topic}''),
               (''prompts/compose_prompt.txt'', ''Write about {topic} from {context}'')],
      clock = 0, trace = []\<rparr>"

section \<open>Properties\<close>

subsection \<open>Traces\<close>

lemma trace_emit: "trace (emit e w) = trace w @ [e]"
  by (simp add: emit_def)

lemma trace_log: "trace (log m w) = trace w @ [Log m]"
  by (simp add: log_def emit_def)

lemma trace_sleep: "trace (sleep d w) = trace w @ [Sleep d]"
  by (simp add: sleep_def emit_def)

lemma trace_remote: "trace (remote E req w) = trace w @ [Remote req]"
  by (simp add: remote_def emit_def)

lemma trace_write_file: "trace (write_file p c w) = trace w"
  by (simp add: write_file_def)

lemma trace_unlink: "trace (unlink p w) = trace w"
  by (simp add: unlink_def)

lemma new_events_append: "trace w' = trace w @ evs \<Longrightarrow> new_events w w' = evs"
  by (simp add: new_events_def)

lemma sleeps_append: "sleeps (xs @ ys) = sleeps xs @ sleeps ys"
  by (induction xs rule: sleeps.induct) simp_all

lemma get_requests_append: "get_requests (xs @ ys) = get_requests xs + get_requests ys"
  by (induction xs rule: get_requests.induct) simp_all

subsection \<open>Backoff of the transport layer\<close>

text \<open>
  One run of the retry loop adds GET requests and sleeps only as follows: the sleeps are
  \<open>b, 2b, 4b, \<dots>\<close> for the backoff \<open>b\<close> at entry, and there are at most
  \<open>retries + 1 - attempt\<close> requests.
\<close>

lemma get_json_loop_events:
  "\<exists>evs n. trace (snd (get_json_loop E url retries attempt b w)) = trace w @ evs
      \<and> sleeps evs = map (\<lambda>k. b * 2 ^ k) [0..<n]
      \<and> int (get_requests evs) \<le> max 0 (retries + 1 - attempt)
      \<and> (attempt \<le> retries \<longrightarrow> get_requests evs = Suc n)"
proof (induction E url retries attempt b w rule: get_json_loop.induct)
  case (1 E url retries attempt b w)
  let ?r = "get_json_loop E url retries attempt b w"
  have one: "trace (snd ?r) = trace w @ [Remote (GetJson url)] \<Longrightarrow> \<not> retries < attempt \<Longrightarrow> ?case"
  proof -
    assume tr: "trace (snd ?r) = trace w @ [Remote (GetJson url)]" and nl: "\<not> retries < attempt"
    have "sleeps [Remote (GetJson url)] = map (\<lambda>k. b * 2 ^ k) [0..<0]"
      by simp
    moreover have "int (get_requests [Remote (GetJson url)]) \<le> max 0 (retries + 1 - attempt)"
      using nl by simp
    moreover have "get_requests [Remote (GetJson url)] = Suc 0"
      by simp
    ultimately show ?case using tr by blast
  qed
  show ?case
  proof (cases "retries < attempt")
    case True
    then have "trace (snd ?r) = trace w @ []"
      by (subst get_json_loop.simps) simp
    moreover have "sleeps [] = map (\<lambda>k. b * 2 ^ k) [0..<0]"
      by simp
    moreover have "int (get_requests []) \<le> max 0 (retries + 1 - attempt)"
      by simp
    ultimately show ?thesis using True by fastforce
  next
    case False
    note notless = this
    show ?thesis
    proof (cases "get_service E (length (trace w)) (GetJson url)")
      case (Inr data)
      have "trace (snd ?r) = trace w @ [Remote (GetJson url)]"
        using notless Inr by (subst get_json_loop.simps) (simp add: trace_remote)
      then show ?thesis using notless by (rule one)
    next
      case (Inl e)
      show ?thesis
      proof (cases "attempt < retries")
        case True
        from "1.IH" [OF notless Inl True] obtain evs n where
          tr: "trace (snd (get_json_loop E url retries (attempt + 1) (b * 2)
                 (sleep b (remote E (GetJson url) w)))) = trace (sleep b (remote E (GetJson url) w)) @ evs"
          and sl: "sleeps evs = map (\<lambda>k. b * 2 * 2 ^ k) [0..<n]"
          and gr: "int (get_requests evs) \<le> max 0 (retries + 1 - (attempt + 1))"
          and ex: "attempt + 1 \<le> retries \<longrightarrow> get_requests evs = Suc n"
          by blast
        let ?evs = "[Remote (GetJson url), Sleep b] @ evs"
        have "?r = get_json_loop E url retries (attempt + 1) (b * 2) (sleep b (remote E (GetJson url) w))"
          using notless Inl True by (subst get_json_loop.simps) simp
        then have "trace (snd ?r) = trace w @ ?evs"
          using tr by (simp add: trace_remote trace_sleep)
        moreover have "sleeps ?evs = map (\<lambda>k. b * 2 ^ k) [0..<Suc n]"
          unfolding map_upt_Suc using sl by (simp add: mult.assoc)
        moreover have "int (get_requests ?evs) \<le> max 0 (retries + 1 - attempt)"
          using gr True by simp
        moreover have "get_requests ?evs = Suc (Suc n)"
          using ex True by simp
        ultimately show ?thesis by blast
      next
        case False
        have "trace (snd ?r) = trace w @ [Remote (GetJson url)]"
          using notless Inl False by (subst get_json_loop.simps) (simp add: trace_remote)
        then show ?thesis using notless by (rule one)
      qed
    qed
  qed
qed

lemma sorted_doubling: "sorted (map (\<lambda>k. (b::nat) * 2 ^ k) [0..<n])"
  by (induction n) (auto simp: sorted_append power_increasing)

text \<open>
  C5. Whatever the service answers, the delays that one call of \<^verbatim>\<open>_get_json\<close> sleeps
  between its attempts are 2, 4, 8, \<dots> seconds in this order (each at least the one
  before), one delay between two attempts, and the call sends at most \<open>retries\<close> GET
  requests.
\<close>

theorem get_json_backoff:
  assumes "0 \<le> retries"
  shows "\<exists>n. sleeps (new_events w (snd (get_json E url timeout retries w)))
                = map (\<lambda>k. 2 * 2 ^ k) [0..<n]
             \<and> sorted (sleeps (new_events w (snd (get_json E url timeout retries w))))
             \<and> int (get_requests (new_events w (snd (get_json E url timeout retries w)))) \<le> retries
             \<and> (0 < retries \<longrightarrow>
                   get_requests (new_events w (snd (get_json E url timeout retries w))) = Suc n)"
proof -
  obtain evs n where tr: "trace (snd (get_json E url timeout retries w)) = trace w @ evs"
    and sl: "sleeps evs = map (\<lambda>k. 2 * 2 ^ k) [0..<n]"
    and gr: "int (get_requests evs) \<le> max 0 (retries + 1 - 1)"
    and ex: "1 \<le> retries \<longrightarrow> get_requests evs = Suc n"
    using get_json_loop_events [of E url retries 1 DEFAULT_BACKOFF w]
    by (auto simp: get_json_def DEFAULT_BACKOFF_def)
  have ev: "new_events w (snd (get_json E url timeout retries w)) = evs"
    using tr by (rule new_events_append)
  have "sorted (sleeps evs)"
    unfolding sl by (rule sorted_doubling)
  moreover have "int (get_requests evs) \<le> retries"
    using gr assms by simp
  moreover have "0 < retries \<longrightarrow> get_requests evs = Suc n"
    using ex by simp
  ultimately show ?thesis
    unfolding ev using sl by blast
qed

text \<open>Three failures in a row with the default retry count: three requests, and sleeps of
  2 and 4 seconds between them.\<close>

lemma get_json_three_failures:
  "new_events empty_world (snd (get_json failing_env ''u'' DEFAULT_TIMEOUT DEFAULT_RETRIES empty_world))
     = [Remote (GetJson ''u''), Sleep 2, Remote (GetJson ''u''), Sleep 4, Remote (GetJson ''u'')]"
  by (simp add: get_json_def get_json_loop.simps new_events_def empty_world_def failing_env_def
        DEFAULT_RETRIES_def DEFAULT_BACKOFF_def remote_def sleep_def emit_def)

theorem get_json_backoff_witness:
  "(0::int) \<le> DEFAULT_RETRIES
   \<and> (\<exists>n. sleeps (new_events empty_world
                (snd (get_json failing_env ''u'' DEFAULT_TIMEOUT DEFAULT_RETRIES empty_world)))
             = map (\<lambda>k. 2 * 2 ^ k) [0..<n]
          \<and> sorted (sleeps (new_events empty_world
                (snd (get_json failing_env ''u'' DEFAULT_TIMEOUT DEFAULT_RETRIES empty_world))))
          \<and> int (get_requests (new_events empty_world
                (snd (get_json failing_env ''u'' DEFAULT_TIMEOUT DEFAULT_RETRIES empty_world))))
              \<le> DEFAULT_RETRIES
          \<and> get_requests (new_events empty_world
                (snd (get_json failing_env ''u'' DEFAULT_TIMEOUT DEFAULT_RETRIES empty_world)))
              = Suc n)
   \<and> sleeps (new_events empty_world
        (snd (get_json failing_env ''u'' DEFAULT_TIMEOUT DEFAULT_RETRIES empty_world))) = [2, 4]
   \<and> get_requests (new_events empty_world
        (snd (get_json failing_env ''u'' DEFAULT_TIMEOUT DEFAULT_RETRIES empty_world))) = 3"
proof -
  have pos: "(0::int) \<le> DEFAULT_RETRIES" and more: "(0::int) < DEFAULT_RETRIES"
    by (simp_all add: DEFAULT_RETRIES_def)
  have run: "sleeps (new_events empty_world
        (snd (get_json failing_env ''u'' DEFAULT_TIMEOUT DEFAULT_RETRIES empty_world))) = [2, 4]"
    "get_requests (new_events empty_world
        (snd (get_json failing_env ''u'' DEFAULT_TIMEOUT DEFAULT_RETRIES empty_world))) = 3"
    by (simp_all add: get_json_three_failures)
  show ?thesis
    using pos more run
      get_json_backoff [OF pos, of empty_world failing_env "''u''" DEFAULT_TIMEOUT]
    by blast
qed

subsection \<open>The events of the scenes stage\<close>

text \<open>Each function of the scenes stage only adds events to the trace, and only events of
  its own kind. The lemmas follow the call graph from the transport layer upwards.\<close>

lemma extends_refl: "extends P w w"
  by (simp add: extends_def)

lemma extends_trans: "extends P w w1 \<Longrightarrow> extends P w1 w2 \<Longrightarrow> extends P w w2"
  by (auto simp: extends_def)

lemma extends_mono: "extends P w w' \<Longrightarrow> (\<And>e. P e \<Longrightarrow> Q e) \<Longrightarrow> extends Q w w'"
  by (auto simp: extends_def list_all_iff)

lemma extends_emit: "P e \<Longrightarrow> extends P w (emit e w)"
  by (simp add: extends_def trace_emit)

lemma extends_log: "P (Log m) \<Longrightarrow> extends P w (log m w)"
  by (simp add: extends_def trace_log)

lemma extends_sleep: "P (Sleep d) \<Longrightarrow> extends P w (sleep d w)"
  by (simp add: extends_def trace_sleep)

lemma extends_remote: "P (Remote req) \<Longrightarrow> extends P w (remote E req w)"
  by (simp add: extends_def trace_remote)

lemma extends_write_file: "extends P w w1 \<Longrightarrow> extends P w (write_file p c w1)"
  by (simp add: extends_def trace_write_file)

lemma extends_unlink: "extends P w w1 \<Longrightarrow> extends P w (unlink p w1)"
  by (simp add: extends_def trace_unlink)

lemma extends_new_events: "extends P w w' \<Longrightarrow> list_all P (new_events w w')"
  by (auto simp: extends_def new_events_def)

lemma extends_get_json_loop:
  "extends poll_event w (snd (get_json_loop E url retries attempt b w))"
proof (induction E url retries attempt b w rule: get_json_loop.induct)
  case (1 E url retries attempt b w)
  have step: "extends poll_event w (remote E (GetJson url) w)"
    by (rule extends_remote) simp
  show ?case
  proof (cases "get_service E (length (trace w)) (GetJson url)")
    case (Inr data)
    then show ?thesis
      using step by (subst get_json_loop.simps) (simp add: extends_refl)
  next
    case (Inl e)
    show ?thesis
    proof (cases "\<not> retries < attempt \<and> attempt < retries")
      case True
      have "extends poll_event w (sleep b (remote E (GetJson url) w))"
        using step by (rule extends_trans) (rule extends_sleep, simp)
      moreover have "extends poll_event (sleep b (remote E (GetJson url) w))
          (snd (get_json_loop E url retries (attempt + 1) (b * 2) (sleep b (remote E (GetJson url) w))))"
        using True Inl "1.IH" by simp
      ultimately have "extends poll_event w
          (snd (get_json_loop E url retries (attempt + 1) (b * 2) (sleep b (remote E (GetJson url) w))))"
        by (rule extends_trans)
      then show ?thesis
        using True Inl by (subst get_json_loop.simps) simp
    next
      case False
      then show ?thesis
        using Inl step by (subst get_json_loop.simps) (auto simp: extends_refl)
    qed
  qed
qed

lemma extends_get_json:
  "get_json E url timeout retries w = (r, w1) \<Longrightarrow> extends poll_event w w1"
  using extends_get_json_loop [of w E url retries 1 DEFAULT_BACKOFF]
  by (simp add: get_json_def)

lemma extends_poll_loop:
  "extends poll_event w (snd (poll_loop E op_url timeout_sec start w))"
proof (induction E op_url timeout_sec start w rule: poll_loop.induct)
  case (1 E op_url timeout_sec start w)
  show ?case
  proof (cases "timeout_sec < int (clock w) - int start")
    case True
    then show ?thesis
      by (subst poll_loop.simps) (simp add: extends_refl)
  next
    case False
    obtain r w1 where call: "get_json E op_url DEFAULT_TIMEOUT DEFAULT_RETRIES w = (r, w1)"
      by (cases "get_json E op_url DEFAULT_TIMEOUT DEFAULT_RETRIES w")
    then have ext: "extends poll_event w w1"
      by (rule extends_get_json)
    show ?thesis
    proof (cases "r = Inr Pending")
      case True
      have "extends poll_event w1 (sleep 5 w1)"
        by (rule extends_sleep) simp
      moreover have "extends poll_event (sleep 5 w1)
          (snd (poll_loop E op_url timeout_sec start (sleep 5 w1)))"
        using "1.IH" [OF False call [symmetric] True refl] by simp
      ultimately have "extends poll_event w (snd (poll_loop E op_url timeout_sec start (sleep 5 w1)))"
        using ext by (blast intro: extends_trans)
      then show ?thesis
        using False call True by (subst poll_loop.simps) simp
    next
      case notpending: False
      then have "snd (poll_loop E op_url timeout_sec start w) = w1"
        using False call
        by (subst poll_loop.simps) (auto split: sum.splits status.splits option.splits)
      then show ?thesis using ext by simp
    qed
  qed
qed

lemma extends_post_json:
  "post_json E req timeout retries w = (r, w1) \<Longrightarrow> P (Remote req) \<Longrightarrow> extends P w w1"
  by (auto simp: post_json_def intro: extends_remote)

lemma extends_start_job:
  "P (Remote payload) \<Longrightarrow> extends P w (snd (start_job E self payload w))"
  by (cases "post_json E payload DEFAULT_TIMEOUT DEFAULT_RETRIES w")
     (auto simp: start_job_def split: sum.splits option.splits dest: extends_post_json)

lemma extends_poll_until_done:
  "extends poll_event w (snd (poll_until_done E self operation_name timeout_sec w))"
  by (simp add: poll_until_done_def extends_poll_loop)

lemma extends_download:
  "extends job_event w (snd (download E self google_uri out_path w))"
  by (auto simp: download_def Let_def split: sum.splits
           intro!: extends_write_file extends_remote)

lemma extends_generate_video_without_image:
  "extends job_event w (snd (generate_video_with_image E self prompt out_path None duration w))"
proof (cases "strip prompt = []")
  case True
  then show ?thesis
    by (simp add: generate_video_with_image_def extends_refl)
next
  case False
  let ?payload = "VeoSubmit prompt None"
  obtain r1 w1 where sj: "start_job E self ?payload w = (r1, w1)"
    by (cases "start_job E self ?payload w")
  have e1: "extends job_event w w1"
    using extends_start_job [of job_event ?payload w E self] sj by simp
  show ?thesis
  proof (cases r1)
    case (Inl e)
    with False sj e1 show ?thesis
      by (simp add: generate_video_with_image_def encode_image_def)
  next
    case (Inr operation_name)
    obtain r2 w2 where pd: "poll_until_done E self operation_name 600 w1 = (r2, w2)"
      by (cases "poll_until_done E self operation_name 600 w1")
    have "extends poll_event w1 w2"
      using extends_poll_until_done [of w1 E self operation_name 600] pd by simp
    then have "extends job_event w1 w2"
    proof (rule extends_mono)
      fix e show "poll_event e \<Longrightarrow> job_event e"
        by (cases e rule: poll_event.cases) simp_all
    qed
    with e1 have e2: "extends job_event w w2"
      by (rule extends_trans)
    show ?thesis
    proof (cases r2)
      case (Inl e)
      with False sj Inr pd e2 show ?thesis
        by (simp add: generate_video_with_image_def encode_image_def)
    next
      case inr2: (Inr video_uri)
      have "extends job_event w (snd (download E self video_uri out_path w2))"
        using e2 extends_download by (rule extends_trans)
      with False sj Inr pd inr2 show ?thesis
        by (simp add: generate_video_with_image_def encode_image_def)
    qed
  qed
qed

lemma extends_tts_speech:
  "extends scene_event w (snd (tts_speech E input key model voice out_path w))"
  by (auto simp: tts_speech_def Let_def split: sum.splits
           intro!: extends_write_file extends_remote)

lemma extends_run:
  "P (Subprocess cmd) \<Longrightarrow> extends P w (snd (run E cmd out w))"
  by (auto simp: run_def split: sum.splits intro!: extends_write_file extends_emit)

lemma extends_extract_last_frame:
  "extends scene_event w (extract_last_frame E video_path frame_path w)"
proof -
  let ?cmd = "[''ffmpeg'', ''-sseof'', ''-1'', ''-i'', video_path, ''-update'', ''1'',
              ''-q:v'', ''2'', frame_path, ''-y'']"
  obtain r w1 where rn: "run E ?cmd frame_path w = (r, w1)"
    by (cases "run E ?cmd frame_path w")
  have e1: "extends scene_event w w1"
    using extends_run [of scene_event ?cmd w E frame_path] rn by simp
  have "extends scene_event w1 (extract_last_frame E video_path frame_path w)"
    using rn
    by (auto simp: extract_last_frame_def split: sum.splits error.splits
             intro!: extends_log extends_refl)
  with e1 show ?thesis
    by (rule extends_trans)
qed

lemma extends_scene_failed:
  "extends scene_event w (snd (scene_failed sid e w))"
  unfolding scene_failed_def snd_conv
  by (rule extends_trans [OF extends_log extends_log]) simp_all

text \<open>Whatever the template and the previous scene, the reference image that
  \<^verbatim>\<open>process_scene\<close> hands on is \<open>None\<close>.\<close>

lemma scene_prompt_no_image:
  "scene_prompt E scene prev_scene out_dir w = Inr (prompt, image_ref) \<Longrightarrow> image_ref = None"
  by (auto simp: scene_prompt_def Let_def split: if_splits sum.splits)

lemma job_event_scene_event: "job_event e \<Longrightarrow> scene_event e"
  by (cases e rule: scene_event.cases) simp_all

lemma extends_process_scene:
  "extends scene_event (log (SceneStarted (scene_id scene)) w)
     (snd (process_scene E scene prev_scene key veo out_dir w))"
proof -
  let ?sid = "scene_id scene"
  let ?audio = "audio_path_of out_dir ?sid"
  let ?video = "video_path_of out_dir ?sid"
  let ?frame = "frame_path_of out_dir ?sid"
  let ?w0 = "log (SceneStarted ?sid) w"
  let ?res = "process_scene E scene prev_scene key veo out_dir w"
  show ?thesis
  proof (cases "exists ?w0 ?audio \<and> exists ?w0 ?video")
    case True
    then have "snd ?res = log (SceneAlreadyExists ?sid) ?w0"
      by (auto simp: process_scene_def Let_def)
    then show ?thesis
      by (simp add: extends_log)
  next
    case False
    obtain r1 w1 where tts: "tts_speech E (ssml scene) key tts_default_model tts_default_voice
        ?audio (log (TtsStarted ?sid) ?w0) = (r1, w1)"
      by (cases "tts_speech E (ssml scene) key tts_default_model tts_default_voice
        ?audio (log (TtsStarted ?sid) ?w0)")
    have "extends scene_event ?w0 (log (TtsStarted ?sid) ?w0)"
      by (rule extends_log) simp
    moreover have "extends scene_event (log (TtsStarted ?sid) ?w0) w1"
      using extends_tts_speech [of "log (TtsStarted ?sid) ?w0" E "ssml scene" key
          tts_default_model tts_default_voice ?audio] tts by simp
    ultimately have e1: "extends scene_event ?w0 w1"
      by (rule extends_trans)
    show ?thesis
    proof (cases r1)
      case (Inl e)
      then have "snd ?res = snd (scene_failed ?sid e w1)"
        using False tts by (auto simp: process_scene_def Let_def)
      then show ?thesis
        using extends_trans [OF e1 extends_scene_failed] by simp
    next
      case (Inr p)
      let ?w2 = "log (TtsDone ?audio) w1"
      have e2: "extends scene_event ?w0 ?w2"
        using e1 by (rule extends_trans) (rule extends_log, simp)
      show ?thesis
      proof (cases "scene_prompt E scene prev_scene out_dir ?w2")
        case (Inl e)
        then have "snd ?res = snd (scene_failed ?sid e ?w2)"
          using False tts Inr by (auto simp: process_scene_def Let_def)
        then show ?thesis
          using extends_trans [OF e2 extends_scene_failed] by simp
      next
        case inr2: (Inr pi)
        obtain prompt image_ref where pi: "pi = (prompt, image_ref)"
          by (cases pi)
        with inr2 have noimg: "image_ref = None"
          using scene_prompt_no_image by simp
        let ?w2' = "log (VeoStarted ?sid) ?w2"
        obtain r3 w3 where gv: "generate_video_with_image E veo prompt ?video None 8 ?w2' = (r3, w3)"
          by (cases "generate_video_with_image E veo prompt ?video None 8 ?w2'")
        have "extends scene_event ?w2 ?w2'"
          by (rule extends_log) simp
        moreover have "extends scene_event ?w2' w3"
          using extends_generate_video_without_image [of ?w2' E veo prompt ?video 8] gv
          by (auto intro: extends_mono job_event_scene_event)
        ultimately have e3: "extends scene_event ?w0 w3"
          using e2 by (blast intro: extends_trans)
        show ?thesis
        proof (cases r3)
          case (Inl e)
          then have "snd ?res = snd (scene_failed ?sid e w3)"
            using False tts Inr inr2 pi noimg gv by (auto simp: process_scene_def Let_def)
          then show ?thesis
            using extends_trans [OF e3 extends_scene_failed] by simp
        next
          case inr3: (Inr p3)
          let ?w4 = "log (VeoDone ?video) w3"
          let ?w5 = "extract_last_frame E ?video ?frame ?w4"
          have "snd ?res = log (FrameExtracted ?sid) ?w5"
            using False tts Inr inr2 pi noimg gv inr3 by (auto simp: process_scene_def Let_def)
          moreover have "extends scene_event w3 ?w4"
            by (rule extends_log) simp
          moreover have "extends scene_event ?w4 ?w5"
            by (rule extends_extract_last_frame)
          moreover have "extends scene_event ?w5 (log (FrameExtracted ?sid) ?w5)"
            by (rule extends_log) simp
          ultimately show ?thesis
            using e3 by (auto intro: extends_trans)
        qed
      qed
    qed
  qed
qed

lemma scene_event_stage_event: "scene_event e \<Longrightarrow> stage_event e"
  by (cases e rule: stage_event.cases) simp_all

lemma started_append: "started (xs @ ys) = started xs @ started ys"
  by (induction xs rule: started.induct) simp_all

lemma submitted_images_append:
  "submitted_images (xs @ ys) = submitted_images xs @ submitted_images ys"
  by (induction xs rule: submitted_images.induct) simp_all

lemma remote_calls_append: "remote_calls (xs @ ys) = remote_calls xs + remote_calls ys"
  by (induction xs rule: remote_calls.induct) simp_all

lemma started_scene_events: "list_all scene_event evs \<Longrightarrow> started evs = []"
  by (induction evs rule: started.induct) simp_all

lemma images_stage_events:
  "list_all stage_event evs \<Longrightarrow> list_all (\<lambda>img. img = None) (submitted_images evs)"
  by (induction evs rule: submitted_images.induct) simp_all

lemma process_scene_trace:
  "\<exists>evs. trace (snd (process_scene E scene prev_scene key veo out_dir w))
            = trace w @ Log (SceneStarted (scene_id scene)) # evs
        \<and> list_all scene_event evs"
  using extends_process_scene [of scene w E prev_scene key veo out_dir]
  by (auto simp: extends_def trace_log)

text \<open>The loop starts every scene it is given, in order, whether or not an earlier one
  failed.\<close>

lemma scenes_loop_trace:
  "\<exists>evs. trace (snd (scenes_loop E key veo out_dir scs prev_scene generated w)) = trace w @ evs
        \<and> started evs = map scene_id scs \<and> list_all stage_event evs"
proof (induction scs arbitrary: prev_scene generated w)
  case Nil
  show ?case by simp
next
  case (Cons scene rest)
  obtain r w1 where ps: "process_scene E scene prev_scene key veo out_dir w = (r, w1)"
    by (cases "process_scene E scene prev_scene key veo out_dir w")
  obtain evs1 where t1: "trace w1 = trace w @ Log (SceneStarted (scene_id scene)) # evs1"
    and a1: "list_all scene_event evs1"
    using process_scene_trace [of E scene prev_scene key veo out_dir w] ps by auto
  have s1: "started evs1 = []"
    using a1 by (rule started_scene_events)
  have g1: "list_all stage_event evs1"
    using a1 by (auto simp: list_all_iff intro: scene_event_stage_event)
  show ?case
  proof (cases r)
    case None
    let ?w2 = "log (SceneSkipped (scene_id scene)) w1"
    obtain evs where t: "trace (snd (scenes_loop E key veo out_dir rest prev_scene generated ?w2))
          = trace ?w2 @ evs"
      and s: "started evs = map scene_id rest" and g: "list_all stage_event evs"
      using Cons.IH [of prev_scene generated ?w2] by blast
    let ?all = "Log (SceneStarted (scene_id scene)) # evs1 @ Log (SceneSkipped (scene_id scene)) # evs"
    have "trace (snd (scenes_loop E key veo out_dir (scene # rest) prev_scene generated w))
          = trace w @ ?all"
      using ps None t t1 by (simp add: trace_log)
    moreover have "started ?all = map scene_id (scene # rest)"
      using s s1 by (simp add: started_append)
    moreover have "list_all stage_event ?all"
      using g g1 by simp
    ultimately show ?thesis by blast
  next
    case (Some result)
    obtain evs where t: "trace (snd (scenes_loop E key veo out_dir rest (Some scene)
            (generated @ [result]) w1)) = trace w1 @ evs"
      and s: "started evs = map scene_id rest" and g: "list_all stage_event evs"
      using Cons.IH [of "Some scene" "generated @ [result]" w1] by blast
    let ?all = "Log (SceneStarted (scene_id scene)) # evs1 @ evs"
    have "trace (snd (scenes_loop E key veo out_dir (scene # rest) prev_scene generated w))
          = trace w @ ?all"
      using ps Some t t1 by simp
    moreover have "started ?all = map scene_id (scene # rest)"
      using s s1 by (simp add: started_append)
    moreover have "list_all stage_event ?all"
      using g g1 by simp
    ultimately show ?thesis by blast
  qed
qed

lemma generate_scenes_trace:
  "\<exists>evs. trace (snd (generate_scenes E key out_dir script_path w)) = trace w @ evs
        \<and> list_all stage_event evs
        \<and> (\<forall>txt scs. read_file w script_path = Inr txt \<longrightarrow> load_script E txt = Inr scs
              \<longrightarrow> started evs = map scene_id (take 2 scs))"
proof (cases "exists w script_path")
  case False
  then have "trace (snd (generate_scenes E key out_dir script_path w))
      = trace w @ [Log (MissingScriptFile script_path)]"
    by (simp add: generate_scenes_def trace_log)
  moreover have "read_file w script_path = Inl (PyException ''FileNotFoundError'')"
    using False by (simp add: exists_def read_file_def)
  ultimately show ?thesis by simp
next
  case True
  then obtain content where rd: "read_file w script_path = Inr content"
    by (auto simp: exists_def read_file_def)
  show ?thesis
  proof (cases "load_script E content")
    case (Inl e)
    then have "trace (snd (generate_scenes E key out_dir script_path w)) = trace w @ []"
      using True rd by (simp add: generate_scenes_def)
    then show ?thesis using rd Inl by auto
  next
    case (Inr scs)
    let ?loop = "scenes_loop E key (VeoClient key) out_dir (take 2 scs) None [] w"
    obtain evs where t: "trace (snd ?loop) = trace w @ evs"
      and s: "started evs = map scene_id (take 2 scs)" and g: "list_all stage_event evs"
      using scenes_loop_trace [of E key "VeoClient key" out_dir "take 2 scs" None "[]" w] by blast
    obtain generated w1 where lp: "?loop = (generated, w1)"
      by (cases ?loop)
    let ?m = "if generated = [] then NoScenesGenerated else CompletedScenes (length generated)"
    have "trace (snd (generate_scenes E key out_dir script_path w)) = trace w @ evs @ [Log ?m]"
      using True rd Inr lp t by (simp add: generate_scenes_def trace_log)
    moreover have "started (evs @ [Log ?m]) = map scene_id (take 2 scs)"
      using s by (simp add: started_append)
    moreover have "list_all stage_event (evs @ [Log ?m])"
      using g by simp
    ultimately show ?thesis
      using rd Inr by (metis Inr_inject append.assoc)
  qed
qed

subsection \<open>Resumption\<close>

text \<open>
  C1. When the audio and the video artifact of a scene are both in the store,
  \<^verbatim>\<open>process_scene\<close> returns the three paths of the scene, makes no remote call (it adds
  the two log lines and nothing else), and leaves the store as it was.
\<close>

theorem process_scene_resumes:
  assumes "exists w (audio_path_of out_dir (scene_id scene))"
    and "exists w (video_path_of out_dir (scene_id scene))"
  shows "process_scene E scene prev_scene key veo out_dir w
           = (Some \<lparr>audio = audio_path_of out_dir (scene_id scene),
                     video = video_path_of out_dir (scene_id scene),
                     frame = frame_path_of out_dir (scene_id scene)\<rparr>,
              log (SceneAlreadyExists (scene_id scene)) (log (SceneStarted (scene_id scene)) w))
       \<and> remote_calls (new_events w (snd (process_scene E scene prev_scene key veo out_dir w))) = 0
       \<and> files (snd (process_scene E scene prev_scene key veo out_dir w)) = files w"
proof -
  have same: "exists (log (SceneStarted (scene_id scene)) w) p = exists w p" for p
    by (simp add: exists_def log_def emit_def)
  have res: "process_scene E scene prev_scene key veo out_dir w
           = (Some \<lparr>audio = audio_path_of out_dir (scene_id scene),
                     video = video_path_of out_dir (scene_id scene),
                     frame = frame_path_of out_dir (scene_id scene)\<rparr>,
              log (SceneAlreadyExists (scene_id scene)) (log (SceneStarted (scene_id scene)) w))"
    using assms by (simp add: process_scene_def Let_def same)
  have "new_events w (log (SceneAlreadyExists (scene_id scene)) (log (SceneStarted (scene_id scene)) w))
          = [Log (SceneStarted (scene_id scene)), Log (SceneAlreadyExists (scene_id scene))]"
    by (simp add: new_events_def trace_log)
  moreover have "files (log (SceneAlreadyExists (scene_id scene)) (log (SceneStarted (scene_id scene)) w))
          = files w"
    by (simp add: log_def emit_def)
  ultimately show ?thesis
    using res by simp
qed

text \<open>Scene 1 with both artifacts in the store, and services that would all fail if they
  were called.\<close>

lemma resumed_world_exists:
  "exists resumed_world (audio_path_of ''out'' (scene_id scene1))
   \<and> exists resumed_world (video_path_of ''out'' (scene_id scene1))"
  by code_simp

theorem process_scene_resumes_witness:
  "exists resumed_world (audio_path_of ''out'' (scene_id scene1))
   \<and> exists resumed_world (video_path_of ''out'' (scene_id scene1))
   \<and> fst (process_scene failing_env scene1 None ''k'' (VeoClient ''k'') ''out'' resumed_world)
       = Some \<lparr>audio = ''out/audio/scene_01.mp3'', video = ''out/video/scene_01.mp4'',
                frame = ''out/frames/scene_01_last.png''\<rparr>
   \<and> remote_calls (new_events resumed_world
         (snd (process_scene failing_env scene1 None ''k'' (VeoClient ''k'') ''out'' resumed_world))) = 0
   \<and> files (snd (process_scene failing_env scene1 None ''k'' (VeoClient ''k'') ''out'' resumed_world))
       = files resumed_world"
proof -
  have a: "exists resumed_world (audio_path_of ''out'' (scene_id scene1))"
    and v: "exists resumed_world (video_path_of ''out'' (scene_id scene1))"
    using resumed_world_exists by simp_all
  have paths: "audio_path_of ''out'' (scene_id scene1) = ''out/audio/scene_01.mp3''"
    "video_path_of ''out'' (scene_id scene1) = ''out/video/scene_01.mp4''"
    "frame_path_of ''out'' (scene_id scene1) = ''out/frames/scene_01_last.png''"
    by code_simp+
  show ?thesis
    using a v process_scene_resumes [OF a v, of failing_env None "''k''" "VeoClient ''k''"]
    by (auto simp: paths)
qed

subsection \<open>The scenes the stage processes\<close>

text \<open>
  C9. For a script that loads, the scenes whose processing \<^verbatim>\<open>generate_scenes\<close> starts are
  exactly the first two of the script, in order: at most two, and none from the third
  position on, however long the script is.
\<close>

theorem generate_scenes_first_two:
  assumes "read_file w script_path = Inr txt" and "load_script E txt = Inr scs"
  shows "started (new_events w (snd (generate_scenes E key out_dir script_path w)))
           = map scene_id (take 2 scs)
       \<and> length (started (new_events w (snd (generate_scenes E key out_dir script_path w)))) \<le> 2"
proof -
  obtain evs where t: "trace (snd (generate_scenes E key out_dir script_path w)) = trace w @ evs"
    and s: "started evs = map scene_id (take 2 scs)"
    using generate_scenes_trace [of E key out_dir script_path w] assms by blast
  have "new_events w (snd (generate_scenes E key out_dir script_path w)) = evs"
    using t by (rule new_events_append)
  with s show ?thesis by simp
qed

theorem generate_scenes_first_two_witness:
  "read_file script_world ''out/scripts/script.json'' = Inr ''[]''
   \<and> load_script three_scenes_env ''[]'' = Inr [scene1, scene2, scene3]
   \<and> started (new_events script_world
         (snd (generate_scenes three_scenes_env ''k'' ''out'' ''out/scripts/script.json'' script_world)))
       = [1, 2]"
proof -
  have r: "read_file script_world ''out/scripts/script.json'' = Inr ''[]''"
    by (simp add: read_file_def script_world_def)
  have l: "load_script three_scenes_env ''[]'' = Inr [scene1, scene2, scene3]"
    by (simp add: three_scenes_env_def)
  show ?thesis
    using r l generate_scenes_first_two [OF r l, of "''k''" "''out''"]
    by (simp add: scene1_def scene2_def)
qed

subsection \<open>No reference image\<close>

text \<open>
  C10. Every job submission of \<^verbatim>\<open>process_scene\<close>, and so of the whole scenes stage,
  carries no image: the payload is the prompt alone.
\<close>

theorem scenes_submit_no_image:
  "list_all (\<lambda>img. img = None)
     (submitted_images (new_events w (snd (process_scene E scene prev_scene key veo out_dir w))))
   \<and> list_all (\<lambda>img. img = None)
     (submitted_images (new_events w (snd (generate_scenes E key out_dir script_path w))))"
proof -
  obtain evs where t: "trace (snd (process_scene E scene prev_scene key veo out_dir w))
            = trace w @ Log (SceneStarted (scene_id scene)) # evs"
    and a: "list_all scene_event evs"
    using process_scene_trace by blast
  have "list_all stage_event (Log (SceneStarted (scene_id scene)) # evs)"
    using a by (auto simp: list_all_iff intro: scene_event_stage_event)
  then have "list_all (\<lambda>img. img = None)
      (submitted_images (Log (SceneStarted (scene_id scene)) # evs))"
    by (rule images_stage_events)
  moreover have "new_events w (snd (process_scene E scene prev_scene key veo out_dir w))
      = Log (SceneStarted (scene_id scene)) # evs"
    using t by (simp add: new_events_def)
  moreover
  obtain evs' where t': "trace (snd (generate_scenes E key out_dir script_path w)) = trace w @ evs'"
    and a': "list_all stage_event evs'"
    using generate_scenes_trace [of E key out_dir script_path w] by blast
  have "new_events w (snd (generate_scenes E key out_dir script_path w)) = evs'"
    using t' by (rule new_events_append)
  ultimately show ?thesis
    using images_stage_events [OF a'] by simp
qed

text \<open>Scene 2 after scene 1, with the last frame of scene 1 in the store: the job is
  submitted without it.\<close>

lemma studio_scene2_images:
  "submitted_images (new_events studio_world
     (snd (process_scene working_env scene2 (Some scene1) ''k'' (VeoClient ''k'') ''out'' studio_world)))
   = [None]"
  by code_simp

theorem scenes_submit_no_image_witness:
  "exists studio_world (frame_path_of ''out'' (scene_id scene1))
   \<and> submitted_images (new_events studio_world
        (snd (process_scene working_env scene2 (Some scene1) ''k'' (VeoClient ''k'') ''out'' studio_world)))
      = [None]
   \<and> list_all (\<lambda>img. img = None)
        (submitted_images (new_events studio_world
           (snd (generate_scenes working_env ''k'' ''out'' ''out/scripts/script.json'' studio_world))))"
proof -
  have "exists studio_world (frame_path_of ''out'' (scene_id scene1))"
    by code_simp
  then show ?thesis
    using scenes_submit_no_image [of studio_world working_env scene2 "Some scene1" "''k''"
        "VeoClient ''k''" "''out''" "''out/scripts/script.json''"]
    by (simp add: studio_scene2_images)
qed

subsection \<open>The concat stage without artifacts\<close>

lemma media_tool_runs_append:
  "media_tool_runs (xs @ ys) = media_tool_runs xs + media_tool_runs ys"
  by (induction xs rule: media_tool_runs.induct) simp_all

text \<open>
  C7, amended. When the video directory or the audio directory holds no scene artifact,
  \<^verbatim>\<open>concat_final\<close> stops at once: it logs the missing outputs, runs the media tool not even
  once and leaves the store as it was. It raises nothing: it returns as it does after a
  success, and a driver run of the concat stage ends normally, with the line that the
  pipeline has finished.
\<close>

theorem concat_final_missing_outputs:
  assumes "glob_scenes w (path_join out_dir ''video'') ''.mp4'' = []
           \<or> glob_scenes w (path_join out_dir ''audio'') ''.mp3'' = []"
  shows "concat_final E out_dir w = log MissingSceneOutputs w
       \<and> new_events w (concat_final E out_dir w) = [Log MissingSceneOutputs]
       \<and> media_tool_runs (new_events w (concat_final E out_dir w)) = 0
       \<and> files (concat_final E out_dir w) = files w
       \<and> main E topic ConcatStage key out_dir w
           = (Inr (), log (PipelineFinished ''concat'') (log MissingSceneOutputs w))"
proof -
  have "sorted_scenes w (path_join out_dir ''video'') ''.mp4'' = []
        \<or> sorted_scenes w (path_join out_dir ''audio'') ''.mp3'' = []"
    using assms by (auto simp: sorted_scenes_def)
  then have res: "concat_final E out_dir w = log MissingSceneOutputs w"
    by (auto simp: concat_final_def Let_def)
  have "new_events w (log MissingSceneOutputs w) = [Log MissingSceneOutputs]"
    by (simp add: new_events_def trace_log)
  moreover have "files (log MissingSceneOutputs w) = files w"
    by (simp add: log_def emit_def)
  moreover have "main E topic ConcatStage key out_dir w
      = (Inr (), log (PipelineFinished ''concat'') (concat_final E out_dir w))"
    by (simp add: main_def Let_def stage_name_def)
  ultimately show ?thesis
    using res by simp
qed

text \<open>An audio artifact without any video artifact, and a media tool that would succeed.\<close>

lemma audio_only_world_globs:
  "glob_scenes audio_only_world (path_join ''out'' ''video'') ''.mp4'' = []
   \<and> glob_scenes audio_only_world (path_join ''out'' ''audio'') ''.mp3'' = [''scene_01.mp3'']"
  by code_simp

theorem concat_final_missing_outputs_witness:
  "glob_scenes audio_only_world (path_join ''out'' ''audio'') ''.mp3'' = [''scene_01.mp3'']
   \<and> glob_scenes audio_only_world (path_join ''out'' ''video'') ''.mp4'' = []
   \<and> new_events audio_only_world (concat_final working_env ''out'' audio_only_world)
       = [Log MissingSceneOutputs]
   \<and> media_tool_runs (new_events audio_only_world (concat_final working_env ''out'' audio_only_world)) = 0
   \<and> files (concat_final working_env ''out'' audio_only_world) = files audio_only_world
   \<and> main working_env ''news'' ConcatStage ''k'' ''out'' audio_only_world
       = (Inr (), log (PipelineFinished ''concat'') (log MissingSceneOutputs audio_only_world))"
proof -
  have g: "glob_scenes audio_only_world (path_join ''out'' ''video'') ''.mp4'' = []
           \<or> glob_scenes audio_only_world (path_join ''out'' ''audio'') ''.mp3'' = []"
    using audio_only_world_globs by simp
  show ?thesis
    using concat_final_missing_outputs [OF g, where E = working_env and topic = "''news''"
        and key = "''k''"] audio_only_world_globs
    by auto
qed

text \<open>
  C7 as stated fails: no error is raised. With an audio artifact and no video artifact, the
  driver's run of the concat stage returns normally; its trace is the line about the missing
  outputs followed by the line that the pipeline has finished.
\<close>

theorem concat_final_no_error_counterexample:
  "glob_scenes audio_only_world (path_join ''out'' ''video'') ''.mp4'' = []
   \<and> fst (main working_env ''news'' ConcatStage ''k'' ''out'' audio_only_world) = Inr ()
   \<and> new_events audio_only_world
        (snd (main working_env ''news'' ConcatStage ''k'' ''out'' audio_only_world))
       = [Log MissingSceneOutputs, Log (PipelineFinished ''concat'')]"
  by code_simp

subsection \<open>Temporary files of the concatenation\<close>

text \<open>When all three runs of the media tool succeed, the four temporary files are gone.\<close>

lemma map_of_filter_other:
  "map_of (filter (\<lambda>(k, d). k \<noteq> p) fs) q = (if q = p then None else map_of fs q)"
  by (induction fs) auto

lemma exists_unlink: "exists (unlink p w) q = (q \<noteq> p \<and> exists w q)"
  by (simp add: exists_def unlink_def map_of_filter_other)

lemma concat_videos_success_cleans:
  assumes "concat_videos E video_list audio_list output_path w = (Inr u, w')"
  shows "\<not> exists w' ''concat_list.txt'' \<and> \<not> exists w' ''concat_audio.txt''
       \<and> \<not> exists w' ''merged_temp.mp4'' \<and> \<not> exists w' ''merged_audio.mp3''"
  using assms
  by (auto simp: concat_videos_def Let_def exists_unlink split: prod.splits sum.splits)

text \<open>
  C3. The claim is that the two list files and the two merged files are removed also when
  a run of the media tool raises. In the code the unlinks are the last statements of
  \<^verbatim>\<open>concat_videos\<close>, outside any \<^verbatim>\<open>finally\<close>: when the muxing fails, the exception leaves
  the function before them, and all four files stay in the store, also after
  \<^verbatim>\<open>concat_final\<close> has caught the exception.
\<close>

theorem concat_failure_keeps_temporaries:
  "fst (concat_videos mux_failing_env [''out/video/scene_01.mp4''] [''out/audio/scene_01.mp3'']
          ''out/final_video.mp4'' one_scene_world) = Inl CalledProcessError
   \<and> exists (snd (concat_videos mux_failing_env [''out/video/scene_01.mp4'']
          [''out/audio/scene_01.mp3''] ''out/final_video.mp4'' one_scene_world)) ''concat_list.txt''
   \<and> exists (snd (concat_videos mux_failing_env [''out/video/scene_01.mp4'']
          [''out/audio/scene_01.mp3''] ''out/final_video.mp4'' one_scene_world)) ''concat_audio.txt''
   \<and> exists (snd (concat_videos mux_failing_env [''out/video/scene_01.mp4'']
          [''out/audio/scene_01.mp3''] ''out/final_video.mp4'' one_scene_world)) ''merged_temp.mp4''
   \<and> exists (snd (concat_videos mux_failing_env [''out/video/scene_01.mp4'']
          [''out/audio/scene_01.mp3''] ''out/final_video.mp4'' one_scene_world)) ''merged_audio.mp3''
   \<and> map fst (files (concat_final mux_failing_env ''out'' one_scene_world))
       = [''out/audio/scene_01.mp3'', ''out/video/scene_01.mp4'', ''concat_list.txt'',
          ''merged_temp.mp4'', ''concat_audio.txt'', ''merged_audio.mp3'']"
  by code_simp

subsection \<open>The order of concatenation\<close>

text \<open>Two-digit names: for scene ids from 0 to 99 the file names are ordered as the ids
  are.\<close>

lemma of_char_digit_char: "d < 10 \<Longrightarrow> of_char (digit_char d) = (48::nat) + d"
proof -
  assume "d < 10"
  then have "d = 0 \<or> d = 1 \<or> d = 2 \<or> d = 3 \<or> d = 4 \<or> d = 5 \<or> d = 6 \<or> d = 7 \<or> d = 8 \<or> d = 9"
    by arith
  then show ?thesis
    by (auto simp: digit_char_def)
qed

lemma digit_char_less:
  "a < 10 \<Longrightarrow> b < 10 \<Longrightarrow> (digit_char a < digit_char b) = (a < b)"
  by (simp add: less_char_def of_char_digit_char)

lemma digit_char_inj:
  "a < 10 \<Longrightarrow> b < 10 \<Longrightarrow> (digit_char a = digit_char b) = (a = b)"
  by (metis add_left_cancel of_char_digit_char)

lemma format_02d_two_digits:
  assumes "0 \<le> i" and "i < 100"
  shows "format_02d i = [digit_char (nat i div 10), digit_char (nat i mod 10)]"
proof (cases "i < 10")
  case True
  with assms have "nat i < 10" by simp
  then have "str_nat (nat i) = [digit_char (nat i)]" and "nat i div 10 = 0" and "nat i mod 10 = nat i"
    by (simp_all add: str_nat.simps)
  with True assms show ?thesis
    by (simp add: format_02d_def digit_char_def)
next
  case False
  with assms have big: "\<not> nat i < 10" and small: "nat i div 10 < 10"
    by simp_all
  have "str_nat (nat i) = str_nat (nat i div 10) @ [digit_char (nat i mod 10)]"
    using big by (subst str_nat.simps) simp
  also have "str_nat (nat i div 10) = [digit_char (nat i div 10)]"
    using small by (subst str_nat.simps) simp
  finally show ?thesis
    using False assms by (simp add: format_02d_def)
qed

lemma div_mod_order:
  "((a::nat) div 10 < b div 10 \<or> a div 10 = b div 10 \<and> a mod 10 < b mod 10) = (a < b)"
proof -
  define qa ra qb rb where "qa = a div 10" and "ra = a mod 10" and "qb = b div 10" and "rb = b mod 10"
  have "a = 10 * qa + ra" and "b = 10 * qb + rb" and "ra < 10" and "rb < 10"
    by (simp_all add: qa_def ra_def qb_def rb_def)
  then have "(qa < qb \<or> qa = qb \<and> ra < rb) = (a < b)"
    by arith
  then show ?thesis
    by (simp add: qa_def ra_def qb_def rb_def)
qed

lemma format_02d_less:
  assumes "0 \<le> i" and "i < 100" and "0 \<le> j" and "j < 100"
  shows "(format_02d i < format_02d j) = (i < j)"
proof -
  let ?a = "nat i" and ?b = "nat j"
  have d: "?a div 10 < 10" "?a mod 10 < 10" "?b div 10 < 10" "?b mod 10 < 10"
    using assms by simp_all
  have "(format_02d i < format_02d j)
      = (?a div 10 < ?b div 10 \<or> ?a div 10 = ?b div 10 \<and> ?a mod 10 < ?b mod 10)"
    using assms d by (simp add: format_02d_two_digits digit_char_less digit_char_inj)
  also have "\<dots> = (?a < ?b)"
    by (rule div_mod_order)
  also have "\<dots> = (i < j)"
    using assms by auto
  finally show ?thesis .
qed

lemma append_less_same_prefix: "(xs @ ys < xs @ zs) = (ys < (zs :: string))"
  by (induction xs) simp_all

lemma two_chars_less_same_suffix:
  "([a, b] @ s < [c, d] @ s) = ([a, b] < [c, (d :: char)])"
  by auto

lemma scene_name_less:
  assumes "0 \<le> i" and "i < 100" and "0 \<le> j" and "j < 100"
  shows "(''scene_'' @ format_02d i @ ext < ''scene_'' @ format_02d j @ ext) = (i < j)"
proof -
  have "(format_02d i @ ext < format_02d j @ ext) = (format_02d i < format_02d j)"
    using assms by (simp only: format_02d_two_digits two_chars_less_same_suffix)
  then show ?thesis
    using assms by (simp only: append_less_same_prefix format_02d_less)
qed

text \<open>Sorting commutes with a function that is monotone on the elements.\<close>

lemma sort_map_mono_on:
  assumes "\<And>x y. x \<in> set xs \<Longrightarrow> y \<in> set xs \<Longrightarrow> x \<le> y \<Longrightarrow> f x \<le> f y"
  shows "sort (map f xs) = map f (sort xs)"
proof (rule properties_for_sort)
  show "mset (map f (sort xs)) = mset (map f xs)"
    by simp
  have "sorted (sort xs)" and "set (sort xs) = set xs"
    by simp_all
  then have "sorted_wrt (\<lambda>x y. f x \<le> f y) (sort xs)"
    using assms by (auto intro: sorted_wrt_mono_rel [of "sort xs" "(\<le>)"])
  then show "sorted (map f (sort xs))"
    by (simp add: sorted_map)
qed

lemma sort_scene_names:
  assumes "list_all (\<lambda>i. 0 \<le> i \<and> i < 100) ids"
  shows "sort (map (\<lambda>i. ''scene_'' @ format_02d i @ ext) ids)
           = map (\<lambda>i. ''scene_'' @ format_02d i @ ext) (sort ids)"
proof (rule sort_map_mono_on)
  fix x y :: int
  assume "x \<in> set ids" and "y \<in> set ids" and "x \<le> y"
  with assms have r: "0 \<le> x" "x < 100" "0 \<le> y" "y < 100"
    by (auto simp: list_all_iff)
  show "''scene_'' @ format_02d x @ ext \<le> ''scene_'' @ format_02d y @ ext"
  proof (cases "x = y")
    case True
    then show ?thesis by simp
  next
    case False
    with \<open>x \<le> y\<close> have "x < y" by simp
    then have "''scene_'' @ format_02d x @ ext < ''scene_'' @ format_02d y @ ext"
      using r by (simp only: scene_name_less)
    then show ?thesis by (rule order_less_imp_le)
  qed
qed

text \<open>
  C6, amended. When the video and the audio directory list, in any order, the artifacts of
  scenes with ids from 0 to 99 (the ids whose two-digit names are as long as each other),
  the lists that \<^verbatim>\<open>concat_final\<close> hands to \<^verbatim>\<open>concat_videos\<close>, which writes them to the concat
  lists line by line, are in ascending order of the scene ids.
\<close>

theorem concat_final_scene_order:
  assumes "glob_scenes w (path_join out_dir ''video'') ''.mp4''
             = map (\<lambda>i. ''scene_'' @ format_02d i @ ''.mp4'') vids"
    and "glob_scenes w (path_join out_dir ''audio'') ''.mp3''
             = map (\<lambda>i. ''scene_'' @ format_02d i @ ''.mp3'') aids"
    and "list_all (\<lambda>i. 0 \<le> i \<and> i < 100) vids"
    and "list_all (\<lambda>i. 0 \<le> i \<and> i < 100) aids"
  shows "sorted_scenes w (path_join out_dir ''video'') ''.mp4''
           = map (video_path_of out_dir) (sort vids)
       \<and> sorted_scenes w (path_join out_dir ''audio'') ''.mp3''
           = map (audio_path_of out_dir) (sort aids)
       \<and> (if vids = [] \<or> aids = [] then concat_final E out_dir w = log MissingSceneOutputs w
          else concat_final E out_dir w
                 = (case concat_videos E (map (video_path_of out_dir) (sort vids))
                           (map (audio_path_of out_dir) (sort aids))
                           (path_join out_dir ''final_video.mp4'') w of
                      (Inr u, w1) \<Rightarrow> log (FinalVideoCreated (path_join out_dir ''final_video.mp4'')) w1
                    | (Inl e, w1) \<Rightarrow> log (Traceback e) (log ConcatError w1)))"
proof -
  have "sorted_scenes w (path_join out_dir ''video'') ''.mp4''
           = map (path_join (path_join out_dir ''video''))
               (map (\<lambda>i. ''scene_'' @ format_02d i @ ''.mp4'') (sort vids))"
    by (simp only: sorted_scenes_def assms(1) sort_scene_names [OF assms(3)])
  then have v: "sorted_scenes w (path_join out_dir ''video'') ''.mp4''
           = map (video_path_of out_dir) (sort vids)"
    by (simp add: video_path_of_def)
  have "sorted_scenes w (path_join out_dir ''audio'') ''.mp3''
           = map (path_join (path_join out_dir ''audio''))
               (map (\<lambda>i. ''scene_'' @ format_02d i @ ''.mp3'') (sort aids))"
    by (simp only: sorted_scenes_def assms(2) sort_scene_names [OF assms(4)])
  then have a: "sorted_scenes w (path_join out_dir ''audio'') ''.mp3''
           = map (audio_path_of out_dir) (sort aids)"
    by (simp add: audio_path_of_def)
  have e: "(sort xs = []) = (xs = [])" for xs :: "int list"
    by (metis length_0_conv length_sort)
  show ?thesis
    using v a by (simp add: concat_final_def Let_def e)
qed

text \<open>A store that lists scenes 10, 2, 1 (videos) and 2, 10, 1 (audios).\<close>

lemma shuffled_world_globs:
  "glob_scenes shuffled_world (path_join ''out'' ''video'') ''.mp4''
     = map (\<lambda>i. ''scene_'' @ format_02d i @ ''.mp4'') [10, 2, 1]
   \<and> glob_scenes shuffled_world (path_join ''out'' ''audio'') ''.mp3''
     = map (\<lambda>i. ''scene_'' @ format_02d i @ ''.mp3'') [2, 10, 1]"
  by code_simp

theorem concat_final_scene_order_witness:
  "sorted_scenes shuffled_world (path_join ''out'' ''video'') ''.mp4''
     = [''out/video/scene_01.mp4'', ''out/video/scene_02.mp4'', ''out/video/scene_10.mp4'']
   \<and> sorted_scenes shuffled_world (path_join ''out'' ''audio'') ''.mp3''
     = [''out/audio/scene_01.mp3'', ''out/audio/scene_02.mp3'', ''out/audio/scene_10.mp3'']"
proof -
  have r: "list_all (\<lambda>i. 0 \<le> i \<and> i < 100) [10, 2, 1 :: int]"
    "list_all (\<lambda>i. 0 \<le> i \<and> i < 100) [2, 10, 1 :: int]"
    by simp_all
  have p: "map (video_path_of ''out'') (sort [10, 2, 1])
      = [''out/video/scene_01.mp4'', ''out/video/scene_02.mp4'', ''out/video/scene_10.mp4'']"
    "map (audio_path_of ''out'') (sort [2, 10, 1])
      = [''out/audio/scene_01.mp3'', ''out/audio/scene_02.mp3'', ''out/audio/scene_10.mp3'']"
    by code_simp+
  show ?thesis
    using concat_final_scene_order [OF conjunct1 [OF shuffled_world_globs]
        conjunct2 [OF shuffled_world_globs] r, of working_env] p
    by simp
qed

text \<open>
  C6 as stated fails from id 100 on: the name of scene 100 sorts before the name of scene
  99, so scene 100 is concatenated first.
\<close>

theorem concat_order_counterexample:
  "sorted_scenes hundred_world (path_join ''out'' ''video'') ''.mp4''
     = [video_path_of ''out'' 100, video_path_of ''out'' 99]"
  by code_simp

subsection \<open>The poll loop\<close>

text \<open>What \<^verbatim>\<open>_get_json\<close> returns is an answer of the service; what it raises with the default
  retry count is the error of the exhausted retries; and it takes at most three requests
  and sleeps of 2 and 4 seconds.\<close>

lemma get_json_loop_result:
  "fst (get_json_loop E url retries attempt b w) = Inr d \<Longrightarrow> \<exists>n. get_service E n (GetJson url) = Inr d"
proof (induction E url retries attempt b w rule: get_json_loop.induct)
  case (1 E url retries attempt b w)
  show ?case
  proof (cases "get_service E (length (trace w)) (GetJson url)")
    case (Inr data)
    with "1.prems" show ?thesis
      by (subst (asm) get_json_loop.simps) (auto split: if_splits)
  next
    case (Inl e)
    with "1.prems" have "\<not> retries < attempt \<and> attempt < retries"
      by (subst (asm) get_json_loop.simps) (auto split: if_splits)
    moreover from this Inl "1.prems"
    have "fst (get_json_loop E url retries (attempt + 1) (b * 2)
                 (sleep b (remote E (GetJson url) w))) = Inr d"
      by (subst (asm) get_json_loop.simps) simp
    ultimately show ?thesis
      using "1.IH" Inl by blast
  qed
qed

lemma get_json_loop_error:
  "fst (get_json_loop E url retries attempt b w) = Inl e
     \<Longrightarrow> e = AIRequestError ''GET failed after attempts'' \<or> e = AIRequestError ''GET failed''"
proof (induction E url retries attempt b w rule: get_json_loop.induct)
  case (1 E url retries attempt b w)
  show ?case
  proof (cases "\<not> retries < attempt \<and> attempt < retries
                \<and> (\<exists>x. get_service E (length (trace w)) (GetJson url) = Inl x)")
    case True
    then obtain x where x: "get_service E (length (trace w)) (GetJson url) = Inl x"
      by blast
    from True x "1.prems"
    have "fst (get_json_loop E url retries (attempt + 1) (b * 2)
                 (sleep b (remote E (GetJson url) w))) = Inl e"
      by (subst (asm) get_json_loop.simps) simp
    then show ?thesis
      using "1.IH" True x by blast
  next
    case False
    with "1.prems" show ?thesis
      by (subst (asm) get_json_loop.simps) (auto split: if_splits sum.splits)
  qed
qed

lemma get_json_duration:
  assumes "\<And>n. latency E n \<le> L"
  shows "clock (snd (get_json E url timeout DEFAULT_RETRIES w)) \<le> clock w + (3 * L + 6)"
proof -
  let ?n = "length (trace w)"
  have "latency E ?n \<le> L" and "latency E (Suc (Suc ?n)) \<le> L"
    and "latency E (Suc (Suc (Suc (Suc ?n)))) \<le> L"
    using assms by blast+
  then show ?thesis
    by (auto simp: get_json_def get_json_loop.simps DEFAULT_RETRIES_def DEFAULT_BACKOFF_def
          remote_def sleep_def emit_def split: sum.splits)
qed

text \<open>If a status query takes at most \<open>D\<close> seconds and never reports done, the loop ends
  with an error, at most \<open>timeout_sec + 5 + D\<close> seconds after \<open>start\<close>.\<close>

lemma poll_loop_bound:
  assumes "\<And>w. clock (snd (get_json E url DEFAULT_TIMEOUT DEFAULT_RETRIES w)) \<le> clock w + D"
    and "\<And>n uri. get_service E n (GetJson url) \<noteq> Inr (Done uri)"
    and "int (clock w) \<le> int start + timeout_sec + 5 + int D"
  shows "(\<exists>e. fst (poll_loop E url timeout_sec start w) = Inl e)
       \<and> int (clock (snd (poll_loop E url timeout_sec start w))) \<le> int start + timeout_sec + 5 + int D"
  using assms
proof (induction E url timeout_sec start w rule: poll_loop.induct)
  case (1 E url timeout_sec start w)
  note dur = "1.prems"(1) and nd = "1.prems"(2) and inv = "1.prems"(3)
  show ?case
  proof (cases "timeout_sec < int (clock w) - int start")
    case True
    with inv show ?thesis
      by (subst (1 2) poll_loop.simps) simp
  next
    case False
    obtain r w1 where call: "get_json E url DEFAULT_TIMEOUT DEFAULT_RETRIES w = (r, w1)"
      by (cases "get_json E url DEFAULT_TIMEOUT DEFAULT_RETRIES w")
    have "clock w1 \<le> clock w + D"
      using dur [of w] call by simp
    with False have c1: "int (clock w1) \<le> int start + timeout_sec + int D"
      by simp
    show ?thesis
    proof (cases r)
      case (Inl e)
      with False call c1 show ?thesis
        by (subst (1 2) poll_loop.simps) simp
    next
      case (Inr d)
      have "\<exists>n. get_service E n (GetJson url) = Inr d"
        using get_json_loop_result [of E url DEFAULT_RETRIES 1 DEFAULT_BACKOFF w d] call Inr
        by (simp add: get_json_def)
      with nd have d: "d = Pending"
        by (cases d) auto
      have "int (clock (sleep 5 w1)) \<le> int start + timeout_sec + 5 + int D"
        using c1 by (simp add: sleep_def emit_def)
      then have "(\<exists>e. fst (poll_loop E url timeout_sec start (sleep 5 w1)) = Inl e)
        \<and> int (clock (snd (poll_loop E url timeout_sec start (sleep 5 w1))))
            \<le> int start + timeout_sec + 5 + int D"
        using "1.IH" [OF False call [symmetric] Inr d] dur nd by blast
      with False call Inr d show ?thesis
        by (subst (1 2) poll_loop.simps) simp
    qed
  qed
qed

lemma get_json_default_error:
  "fst (get_json E url timeout DEFAULT_RETRIES w) = Inl e
     \<Longrightarrow> e = AIRequestError ''GET failed after attempts''"
  by (auto simp: get_json_def get_json_loop.simps DEFAULT_RETRIES_def split: sum.splits)

lemma poll_loop_error:
  assumes "\<And>n uri. get_service E n (GetJson url) \<noteq> Inr (Done uri)"
    and "fst (poll_loop E url timeout_sec start w) = Inl e"
  shows "e = AIRequestError ''Veo operation timed out'' \<or> e = AIRequestError ''GET failed after attempts''"
  using assms
proof (induction E url timeout_sec start w rule: poll_loop.induct)
  case (1 E url timeout_sec start w)
  note nd = "1.prems"(1) and res = "1.prems"(2)
  show ?case
  proof (cases "timeout_sec < int (clock w) - int start")
    case True
    with res show ?thesis
      by (subst (asm) poll_loop.simps) simp
  next
    case False
    obtain r w1 where call: "get_json E url DEFAULT_TIMEOUT DEFAULT_RETRIES w = (r, w1)"
      by (cases "get_json E url DEFAULT_TIMEOUT DEFAULT_RETRIES w")
    show ?thesis
    proof (cases r)
      case (Inl x)
      with False call res have "e = x"
        by (subst (asm) poll_loop.simps) simp
      moreover have "x = AIRequestError ''GET failed after attempts''"
        using get_json_default_error [of E url DEFAULT_TIMEOUT w x] call Inl by simp
      ultimately show ?thesis by simp
    next
      case (Inr d)
      have "\<exists>n. get_service E n (GetJson url) = Inr d"
        using get_json_loop_result [of E url DEFAULT_RETRIES 1 DEFAULT_BACKOFF w d] call Inr
        by (simp add: get_json_def)
      with nd have d: "d = Pending"
        by (cases d) auto
      from False call Inr d res
      have "fst (poll_loop E url timeout_sec start (sleep 5 w1)) = Inl e"
        by (subst (asm) poll_loop.simps) simp
      then show ?thesis
        using "1.IH" [OF False call [symmetric] Inr d] nd by blast
    qed
  qed
qed

text \<open>When no request fails, an iteration is one GET request and one sleep of 5 seconds.\<close>

lemma get_json_pending:
  assumes "\<And>n. get_service E n (GetJson url) = Inr Pending"
  shows "get_json E url timeout DEFAULT_RETRIES w = (Inr Pending, remote E (GetJson url) w)"
  using assms by (simp add: get_json_def get_json_loop.simps DEFAULT_RETRIES_def)

lemma poll_loop_pending:
  assumes "\<And>n. get_service E n (GetJson url) = Inr Pending"
  shows "fst (poll_loop E url timeout_sec start w) = Inl (AIRequestError ''Veo operation timed out'')
       \<and> (\<exists>k. trace (snd (poll_loop E url timeout_sec start w))
                = trace w @ concat (replicate k [Remote (GetJson url), Sleep 5]))"
  using assms
proof (induction E url timeout_sec start w rule: poll_loop.induct)
  case (1 E url timeout_sec start w)
  note pend = "1.prems"
  show ?case
  proof (cases "timeout_sec < int (clock w) - int start")
    case True
    then have "poll_loop E url timeout_sec start w = (Inl (AIRequestError ''Veo operation timed out''), w)"
      by (subst poll_loop.simps) simp
    moreover have "trace w = trace w @ concat (replicate 0 [Remote (GetJson url), Sleep 5])"
      by simp
    ultimately show ?thesis
      by (metis fst_conv snd_conv)
  next
    case False
    let ?w1 = "remote E (GetJson url) w"
    have call: "get_json E url DEFAULT_TIMEOUT DEFAULT_RETRIES w = (Inr Pending, ?w1)"
      using pend by (rule get_json_pending)
    have unfold: "poll_loop E url timeout_sec start w = poll_loop E url timeout_sec start (sleep 5 ?w1)"
      using False call by (subst poll_loop.simps) simp
    obtain k where res: "fst (poll_loop E url timeout_sec start (sleep 5 ?w1))
          = Inl (AIRequestError ''Veo operation timed out'')"
      and tr: "trace (snd (poll_loop E url timeout_sec start (sleep 5 ?w1)))
          = trace (sleep 5 ?w1) @ concat (replicate k [Remote (GetJson url), Sleep 5])"
      using "1.IH" [OF False call [symmetric] refl refl] pend by blast
    have "trace (snd (poll_loop E url timeout_sec start w))
          = trace w @ concat (replicate (Suc k) [Remote (GetJson url), Sleep 5])"
      using tr unfold by (simp add: trace_sleep trace_remote)
    with res unfold show ?thesis
      by (metis (no_types))
  qed
qed

text \<open>
  C4, amended. For a job whose status polls never report done, \<^verbatim>\<open>_poll_until_done\<close> ends
  by raising: the timeout error, or the error of a status query that has used up its three
  attempts. Where a request takes at most \<open>L\<close> seconds, this happens no later than
  \<open>timeout_sec + 5 + (3 L + 6)\<close> seconds after the start: the clock is read only at the head
  of an iteration, and an iteration is one call of \<^verbatim>\<open>_get_json\<close> (one to three requests,
  with sleeps of 2 and 4 seconds after a failed one) and the sleep of 5 seconds. When no
  request fails, the error is the timeout, each iteration is exactly one request and one
  sleep of 5 seconds, and the loop ends no later than \<open>timeout_sec + 5 + L\<close> seconds after
  the start.
\<close>

theorem poll_until_done_timeout:
  assumes "\<And>n req uri. get_service E n req \<noteq> Inr (Done uri)"
    and "\<And>n. latency E n \<le> L"
    and "0 \<le> timeout_sec"
  shows "(fst (poll_until_done E self operation_name timeout_sec w)
            = Inl (AIRequestError ''Veo operation timed out'')
          \<or> fst (poll_until_done E self operation_name timeout_sec w)
            = Inl (AIRequestError ''GET failed after attempts''))
       \<and> int (clock (snd (poll_until_done E self operation_name timeout_sec w)))
            \<le> int (clock w) + timeout_sec + 5 + int (3 * L + 6)
       \<and> ((\<forall>n req. get_service E n req = Inr Pending) \<longrightarrow>
            fst (poll_until_done E self operation_name timeout_sec w)
              = Inl (AIRequestError ''Veo operation timed out'')
            \<and> int (clock (snd (poll_until_done E self operation_name timeout_sec w)))
                \<le> int (clock w) + timeout_sec + 5 + int L
            \<and> (\<exists>k. new_events w (snd (poll_until_done E self operation_name timeout_sec w))
                  = concat (replicate k
                      [Remote (GetJson (base self @ ''/'' @ operation_name)), Sleep 5])))"
proof -
  let ?url = "base self @ ''/'' @ operation_name"
  let ?r = "poll_loop E ?url timeout_sec (clock w) w"
  have nd: "\<And>n uri. get_service E n (GetJson ?url) \<noteq> Inr (Done uri)"
    using assms(1) by blast
  have dur: "\<And>v. clock (snd (get_json E ?url DEFAULT_TIMEOUT DEFAULT_RETRIES v)) \<le> clock v + (3 * L + 6)"
    using assms(2) by (rule get_json_duration)
  have inv: "int (clock w) \<le> int (clock w) + timeout_sec + 5 + int D" for D
    using assms(3) by simp
  obtain e where e: "fst ?r = Inl e"
    and bound: "int (clock (snd ?r)) \<le> int (clock w) + timeout_sec + 5 + int (3 * L + 6)"
    using poll_loop_bound [OF dur nd inv] by blast
  have kind: "e = AIRequestError ''Veo operation timed out''
      \<or> e = AIRequestError ''GET failed after attempts''"
    using nd e by (rule poll_loop_error)
  have ideal: "fst ?r = Inl (AIRequestError ''Veo operation timed out'')
       \<and> int (clock (snd ?r)) \<le> int (clock w) + timeout_sec + 5 + int L
       \<and> (\<exists>k. new_events w (snd ?r) = concat (replicate k [Remote (GetJson ?url), Sleep 5]))"
    if pend: "\<forall>n req. get_service E n req = Inr Pending"
  proof -
    have p: "\<And>n. get_service E n (GetJson ?url) = Inr Pending"
      using pend by simp
    have d: "clock (snd (get_json E ?url DEFAULT_TIMEOUT DEFAULT_RETRIES v)) \<le> clock v + L" for v
    proof -
      have "get_json E ?url DEFAULT_TIMEOUT DEFAULT_RETRIES v = (Inr Pending, remote E (GetJson ?url) v)"
        using p by (rule get_json_pending)
      then have "clock (snd (get_json E ?url DEFAULT_TIMEOUT DEFAULT_RETRIES v))
          = clock v + latency E (length (trace v))"
        by (simp only: snd_conv) (simp add: remote_def emit_def)
      then show ?thesis
        using assms(2) [of "length (trace v)"] by simp
    qed
    have "int (clock (snd ?r)) \<le> int (clock w) + timeout_sec + 5 + int L"
      using poll_loop_bound [OF d nd inv] by blast
    moreover obtain k where "trace (snd ?r) = trace w @ concat (replicate k [Remote (GetJson ?url), Sleep 5])"
      and "fst ?r = Inl (AIRequestError ''Veo operation timed out'')"
      using poll_loop_pending [OF p, of timeout_sec "clock w" w] by blast
    ultimately show ?thesis
      by (auto simp: new_events_def)
  qed
  show ?thesis
    unfolding poll_until_done_def using e kind bound ideal by auto
qed

text \<open>Two runs with a timeout of 10 seconds.\<close>

lemma short_runs:
  "fst (poll_until_done flaky_env (VeoClient ''k'') ''operations/1'' 10 empty_world)
     = Inl (AIRequestError ''Veo operation timed out'')"
  "clock (snd (poll_until_done flaky_env (VeoClient ''k'') ''operations/1'' 10 empty_world)) = 17"
  "get_requests (trace (snd (poll_until_done flaky_env (VeoClient ''k'') ''operations/1'' 10 empty_world))) = 4"
  "clock (snd (poll_until_done pending_env (VeoClient ''k'') ''operations/1'' 10 empty_world)) = 12"
  "new_events empty_world (snd (poll_until_done pending_env (VeoClient ''k'') ''operations/1'' 10 empty_world))
     = concat (replicate 2 [Remote (GetJson (base (VeoClient ''k'') @ ''/'' @ ''operations/1'')), Sleep 5])"
  by code_simp+

theorem poll_until_done_timeout_witness:
  "(fst (poll_until_done flaky_env (VeoClient ''k'') ''operations/1'' 10 empty_world)
      = Inl (AIRequestError ''Veo operation timed out'')
    \<and> clock (snd (poll_until_done flaky_env (VeoClient ''k'') ''operations/1'' 10 empty_world)) = 17
    \<and> int (clock (snd (poll_until_done flaky_env (VeoClient ''k'') ''operations/1'' 10 empty_world)))
        \<le> int (clock empty_world) + 10 + 5 + int (3 * 0 + 6))
   \<and> (fst (poll_until_done pending_env (VeoClient ''k'') ''operations/1'' 10 empty_world)
        = Inl (AIRequestError ''Veo operation timed out'')
      \<and> clock (snd (poll_until_done pending_env (VeoClient ''k'') ''operations/1'' 10 empty_world)) = 12
      \<and> int (clock (snd (poll_until_done pending_env (VeoClient ''k'') ''operations/1'' 10 empty_world)))
          \<le> int (clock empty_world) + 10 + 5 + int 1)"
proof -
  have f1: "\<And>n req uri. get_service flaky_env n req \<noteq> Inr (Done uri)"
    and f2: "\<And>n. latency flaky_env n \<le> 0"
    by (simp_all add: flaky_env_def failing_env_def)
  have p1: "\<And>n req uri. get_service pending_env n req \<noteq> Inr (Done uri)"
    and p2: "\<And>n. latency pending_env n \<le> 1"
    and p3: "\<forall>n req. get_service pending_env n req = Inr Pending"
    by (simp_all add: pending_env_def failing_env_def)
  have z: "(0::int) \<le> 10"
    by simp
  show ?thesis
    using poll_until_done_timeout [OF f1 f2 z, of "VeoClient ''k''" "''operations/1''" empty_world]
      poll_until_done_timeout [OF p1 p2 z, of "VeoClient ''k''" "''operations/1''" empty_world] p3
    by (simp add: short_runs)
qed

text \<open>
  C4 as stated fails. With the default timeout of 600 seconds and a service that takes 100
  seconds for a request and fails every first attempt, the timeout is raised 621 seconds
  after the start, later than 605, and the three iterations send six status queries. With a
  service that answers at once, a timeout of 10 seconds and one failed request, it is raised
  after 17 seconds, later than 15.
\<close>

theorem poll_until_done_counterexample:
  "fst (poll_until_done slow_flaky_env (VeoClient ''k'') ''operations/1'' 600 empty_world)
     = Inl (AIRequestError ''Veo operation timed out'')
   \<and> clock (snd (poll_until_done slow_flaky_env (VeoClient ''k'') ''operations/1'' 600 empty_world)) = 621
   \<and> get_requests (trace (snd (poll_until_done slow_flaky_env (VeoClient ''k'') ''operations/1'' 600
        empty_world))) = 6
   \<and> sleeps (trace (snd (poll_until_done slow_flaky_env (VeoClient ''k'') ''operations/1'' 600
        empty_world))) = [2, 5, 2, 5, 2, 5]
   \<and> fst (poll_until_done flaky_env (VeoClient ''k'') ''operations/1'' 10 empty_world)
     = Inl (AIRequestError ''Veo operation timed out'')
   \<and> clock (snd (poll_until_done flaky_env (VeoClient ''k'') ''operations/1'' 10 empty_world)) = 17"
  by code_simp

subsection \<open>A failing scene\<close>

text \<open>Run over all five scenes, the loop of \<^verbatim>\<open>generate_scenes\<close> completes scenes 1, 2, 4 and
  5 and skips scene 3 alone.\<close>

lemma scenes_loop_isolates_failure:
  "map video (fst (scenes_loop third_fails_env ''k'' (VeoClient ''k'') ''out'' five_scenes None []
      five_world))
     = [''out/video/scene_01.mp4'', ''out/video/scene_02.mp4'', ''out/video/scene_04.mp4'',
        ''out/video/scene_05.mp4'']
   \<and> filter (\<lambda>e. e = Log (SceneSkipped 3) \<or> e = Log (SceneSkipped 4))
       (trace (snd (scenes_loop third_fails_env ''k'' (VeoClient ''k'') ''out'' five_scenes None []
          five_world)))
     = [Log (SceneSkipped 3)]"
  by code_simp

text \<open>
  C2. The claim is that with five scenes of which scene 3 fails the stage completes scenes
  1, 2, 4 and 5 and reports four successes. \<^verbatim>\<open>generate_scenes\<close> runs its loop over
  \<^verbatim>\<open>scenes[:2]\<close>: on this script only scenes 1 and 2 are started, the stage reports two
  completed scenes, scene 3 is never tried, and no artifact of scene 4 or 5 is written.
\<close>

theorem generate_scenes_five_scenes:
  "started (trace (snd (generate_scenes third_fails_env ''k'' ''out'' ''out/scripts/script.json''
      five_world))) = [1, 2]
   \<and> last (trace (snd (generate_scenes third_fails_env ''k'' ''out'' ''out/scripts/script.json''
      five_world))) = Log (CompletedScenes 2)
   \<and> map fst (files (snd (generate_scenes third_fails_env ''k'' ''out'' ''out/scripts/script.json''
      five_world)))
     = [''out/scripts/script.json'', ''prompts/scene_prompt.txt'',
        ''out/audio/scene_01.mp3'', ''out/video/scene_01.mp4'', ''out/frames/scene_01_last.png'',
        ''out/audio/scene_02.mp3'', ''out/video/scene_02.mp4'', ''out/frames/scene_02_last.png'']"
  by code_simp

subsection \<open>The driver and the script stage\<close>

text \<open>The script stage only logs and sends chat requests; the concat stage makes no remote
  call.\<close>

lemma extends_script_failed: "extends script_event w (snd (script_failed e t w))"
  by (auto simp: script_failed_def split: error.splits option.splits
           intro!: extends_trans [OF extends_log extends_log] extends_log)

lemma snd_generate_text:
  "snd (generate_text E prompt key model max_tokens system_prompt messages web_search w)
     = remote E (ChatPost model (chat_messages prompt system_prompt messages) web_search max_tokens) w"
  by (simp add: generate_text_def post_json_def Let_def split: sum.splits option.splits)

lemma extends_generate_text:
  "extends script_event w
     (snd (generate_text E prompt key model max_tokens system_prompt messages web_search w))"
  by (simp add: snd_generate_text extends_remote)

lemma extends_script_phase2:
  "extends script_event w (snd (script_phase2 E topic key out_path w))"
proof (cases "read_file w (path_join (parent out_path) ''search_context.txt'')")
  case (Inl e)
  then show ?thesis
    by (simp add: script_phase2_def extends_script_failed)
next
  case (Inr search_results)
  let ?w1 = "log Phase2Generating w"
  have e1: "extends script_event w ?w1"
    by (rule extends_log) simp
  show ?thesis
  proof (cases "read_file ?w1 ''prompts/compose_prompt.txt''")
    case (Inl e)
    then have "snd (script_phase2 E topic key out_path w) = snd (script_failed e None ?w1)"
      using Inr by (simp add: script_phase2_def Let_def)
    then show ?thesis
      using extends_trans [OF e1 extends_script_failed] by simp
  next
    case inr2: (Inr compose_prompt)
    define prompt where "prompt =
        replace (replace compose_prompt ''{topic}'' topic) ''{context}'' search_results
          @ [CHR 0x0A, CHR 0x0A]
          @ ''Here is the factual context gathered from the web:'' @ [CHR 0x0A]
          @ take 4000 search_results"
    obtain r w2 where gt: "generate_text E prompt key ''gemini-2.5-flash'' 10000 None None False ?w1
        = (r, w2)"
      by (cases "generate_text E prompt key ''gemini-2.5-flash'' 10000 None None False ?w1")
    have "extends script_event ?w1 w2"
      using extends_generate_text [of ?w1 E prompt key "''gemini-2.5-flash''" 10000 None None False] gt
      by simp
    with e1 have e2: "extends script_event w w2"
      by (rule extends_trans)
    have "extends script_event w2 (snd (script_phase2 E topic key out_path w))"
      using Inr inr2 gt
      by (auto simp: script_phase2_def Let_def prompt_def
               split: sum.splits option.splits
               intro!: extends_script_failed extends_log extends_write_file extends_refl
                       extends_trans [OF extends_write_file [OF extends_refl] extends_log])
    with e2 show ?thesis
      by (rule extends_trans)
  qed
qed

lemma extends_generate_full_script:
  "extends script_event w (snd (generate_full_script E topic key out_path skip_search w))"
proof (cases "read_file w ''prompts/search_prompt.txt''")
  case (Inl e)
  then show ?thesis
    by (simp add: generate_full_script_def extends_script_failed)
next
  case (Inr template)
  let ?w1 = "log (Phase1Searching topic) w"
  have e1: "extends script_event w ?w1"
    by (rule extends_log) simp
  show ?thesis
  proof (cases skip_search)
    case True
    then have "snd (generate_full_script E topic key out_path skip_search w)
        = snd (script_phase2 E topic key out_path ?w1)"
      using Inr by (simp add: generate_full_script_def Let_def)
    then show ?thesis
      using extends_trans [OF e1 extends_script_phase2] by simp
  next
    case False
    let ?prompt = "replace template ''{topic}'' topic"
    obtain r w2 where gt: "generate_text E ?prompt key ''gemini-2.5-flash'' 2048 None None True ?w1
        = (r, w2)"
      by (cases "generate_text E ?prompt key ''gemini-2.5-flash'' 2048 None None True ?w1")
    have "extends script_event ?w1 w2"
      using extends_generate_text [of ?w1 E ?prompt key "''gemini-2.5-flash''" 2048 None None True] gt
      by simp
    with e1 have e2: "extends script_event w w2"
      by (rule extends_trans)
    have "extends script_event w2 (snd (generate_full_script E topic key out_path skip_search w))"
      using Inr False gt
      by (auto simp: generate_full_script_def Let_def split: sum.splits
               intro!: extends_script_failed
                  extends_trans [OF extends_trans [OF extends_write_file [OF extends_refl] extends_log]
                                    extends_script_phase2])
    with e2 show ?thesis
      by (rule extends_trans)
  qed
qed

lemma extends_run_after:
  "extends P w v \<Longrightarrow> P (Subprocess cmd) \<Longrightarrow> extends P w (snd (run E cmd out v))"
  by (erule extends_trans) (rule extends_run)

lemma extends_concat_videos:
  "extends local_event w (snd (concat_videos E video_list audio_list output_path w))"
proof -
  let ?w1 = "write_file ''concat_list.txt'' (concat (map concat_line video_list)) w"
  let ?run1 = "run E [''ffmpeg'', ''-f'', ''concat'', ''-safe'', ''0'',
                     ''-i'', ''concat_list.txt'', ''-c'', ''copy'', ''merged_temp.mp4'']
                 ''merged_temp.mp4'' ?w1"
  let ?w3 = "write_file ''concat_audio.txt'' (concat (map concat_line audio_list)) (snd ?run1)"
  let ?run2 = "run E [''ffmpeg'', ''-f'', ''concat'', ''-safe'', ''0'',
                     ''-i'', ''concat_audio.txt'', ''-c'', ''copy'', ''merged_audio.mp3'']
                 ''merged_audio.mp3'' ?w3"
  let ?run3 = "run E [''ffmpeg'', ''-i'', ''merged_temp.mp4'', ''-i'', ''merged_audio.mp3'',
                     ''-c:v'', ''copy'', ''-map'', ''0:v:0'', ''-map'', ''1:a:0'',
                     ''-shortest'', output_path] output_path (snd ?run2)"
  let ?w6 = "unlink ''merged_audio.mp3'' (unlink ''merged_temp.mp4''
               (unlink ''concat_audio.txt'' (unlink ''concat_list.txt'' (snd ?run3))))"
  have "extends local_event w ?w1"
    by (rule extends_write_file) (rule extends_refl)
  then have e1: "extends local_event w (snd ?run1)"
    by (rule extends_run_after) simp
  then have "extends local_event w ?w3"
    by (rule extends_write_file)
  then have e2: "extends local_event w (snd ?run2)"
    by (rule extends_run_after) simp
  then have e3: "extends local_event w (snd ?run3)"
    by (rule extends_run_after) simp
  then have e4: "extends local_event w ?w6"
    by (intro extends_unlink)
  have "snd (concat_videos E video_list audio_list output_path w)
          \<in> {snd ?run1, snd ?run2, snd ?run3, ?w6}"
    by (cases ?run1; cases ?run2; cases ?run3)
       (auto simp: concat_videos_def Let_def split: sum.splits)
  with e1 e2 e3 e4 show ?thesis
    by auto
qed

lemma extends_concat_final:
  "extends local_event w (concat_final E out_dir w)"
proof -
  let ?videos = "sorted_scenes w (path_join out_dir ''video'') ''.mp4''"
  let ?audios = "sorted_scenes w (path_join out_dir ''audio'') ''.mp3''"
  let ?final = "path_join out_dir ''final_video.mp4''"
  show ?thesis
  proof (cases "?videos = [] \<or> ?audios = []")
    case True
    then have "concat_final E out_dir w = log MissingSceneOutputs w"
      by (auto simp: concat_final_def Let_def)
    then show ?thesis
      by (simp add: extends_log)
  next
    case False
    obtain r w1 where cv: "concat_videos E ?videos ?audios ?final w = (r, w1)"
      by (cases "concat_videos E ?videos ?audios ?final w")
    have e1: "extends local_event w w1"
      using extends_concat_videos [of w E ?videos ?audios ?final] cv by simp
    have "extends local_event w1 (concat_final E out_dir w)"
      using False cv
      by (auto simp: concat_final_def Let_def split: sum.splits
               intro!: extends_log extends_trans [OF extends_log extends_log])
    with e1 show ?thesis
      by (rule extends_trans)
  qed
qed

lemma remote_calls_local: "list_all local_event evs \<Longrightarrow> remote_calls evs = 0"
  by (induction evs rule: remote_calls.induct) simp_all

lemma media_tool_runs_script: "list_all script_event evs \<Longrightarrow> media_tool_runs evs = 0"
  by (induction evs rule: media_tool_runs.induct) simp_all

text \<open>With its three input files readable, \<^verbatim>\<open>generate_full_script\<close> (web search skipped)
  sends exactly one generation request, and writes the script when the answer parses. The
  store is never asked whether the script is already there.\<close>

lemma read_file_log: "read_file (log m w) p = read_file w p"
  by (simp add: read_file_def log_def emit_def)

lemma read_file_remote: "read_file (remote E req w) p = read_file w p"
  by (simp add: read_file_def remote_def emit_def)

lemma map_of_store: "map_of (store p c fs) p = Some c"
  by (induction fs) auto

lemma read_file_written: "read_file (write_file p c w) p = Inr c"
  by (simp add: read_file_def write_file_def map_of_store)

lemma remote_calls_logs: "list_all log_event evs \<Longrightarrow> remote_calls evs = 0"
  by (induction evs rule: remote_calls.induct) simp_all

lemma extends_logs_script_failed: "extends log_event w (snd (script_failed e t w))"
  by (auto simp: script_failed_def split: error.splits option.splits
           intro!: extends_trans [OF extends_log extends_log] extends_log)

lemma script_stage_regenerates:
  assumes "read_file w ''prompts/search_prompt.txt'' = Inr template"
    and "read_file w (path_join (parent out_path) ''search_context.txt'') = Inr search_results"
    and "read_file w ''prompts/compose_prompt.txt'' = Inr compose_prompt"
  shows "remote_calls (new_events w (snd (generate_full_script E topic key out_path True w))) = 1"
proof -
  let ?w1 = "log Phase2Generating (log (Phase1Searching topic) w)"
  define prompt where "prompt =
      replace (replace compose_prompt ''{topic}'' topic) ''{context}'' search_results
        @ [CHR 0x0A, CHR 0x0A]
        @ ''Here is the factual context gathered from the web:'' @ [CHR 0x0A]
        @ take 4000 search_results"
  let ?gt = "generate_text E prompt key ''gemini-2.5-flash'' 10000 None None False ?w1"
  let ?payload = "ChatPost ''gemini-2.5-flash'' (chat_messages prompt None None) False 10000"
  have w2: "snd ?gt = remote E ?payload ?w1"
    by (rule snd_generate_text)
  have "extends log_event (snd ?gt) (snd (generate_full_script E topic key out_path True w))"
    using assms
    by (cases ?gt)
       (auto simp: generate_full_script_def script_phase2_def Let_def read_file_log prompt_def
             split: sum.splits option.splits
             intro!: extends_logs_script_failed
                     extends_trans [OF extends_write_file [OF extends_refl] extends_log])
  then obtain evs where "trace (snd (generate_full_script E topic key out_path True w))
        = trace (snd ?gt) @ evs" and logs: "list_all log_event evs"
    by (auto simp: extends_def)
  then have "new_events w (snd (generate_full_script E topic key out_path True w))
        = [Log (Phase1Searching topic), Log Phase2Generating, Remote ?payload] @ evs"
    by (simp add: w2 new_events_def trace_remote trace_log)
  then show ?thesis
    using remote_calls_logs [OF logs] by (simp add: remote_calls_append)
qed

lemma script_stage_overwrites:
  assumes "read_file w ''prompts/search_prompt.txt'' = Inr template"
    and "read_file w (path_join (parent out_path) ''search_context.txt'') = Inr search_results"
    and "read_file w ''prompts/compose_prompt.txt'' = Inr compose_prompt"
    and "\<And>n req. post_service E n req = Inr (Some content)"
    and "content \<noteq> []"
    and "clean_answer (strip content) = Inr cleaned"
    and "json_reformat E cleaned = Some doc"
  shows "fst (generate_full_script E topic key out_path True w) = Inr ()
       \<and> read_file (snd (generate_full_script E topic key out_path True w)) out_path = Inr doc"
  using assms
  by (simp add: generate_full_script_def script_phase2_def generate_text_def post_json_def Let_def
        read_file_log read_file_written)

text \<open>
  C8, amended. For every stage selection the driver runs the selected stage and no other, and
  for \<^verbatim>\<open>all\<close> the three stages in the order script, scenes, concat (a stage that raises ends
  the run): a script-only run never starts the media tool, a concat-only run makes no remote
  call. The script stage does not ask whether its output exists, and the driver has no
  option to force a stage: whenever its prompts and the search context are readable, the
  script stage sends its generation request, and when the answer parses it writes the script
  artifact, whether or not one was there before.
\<close>

theorem driver_stage_selection:
  "main E topic ScriptStage key out_dir w
     = (case generate_full_script E topic key (script_path_of out_dir) True w of
          (Inl e, w1) \<Rightarrow> (Inl e, w1)
        | (Inr u, w1) \<Rightarrow> (Inr (), log (PipelineFinished ''script'') w1))
   \<and> main E topic ScenesStage key out_dir w
     = (case generate_scenes E key out_dir (script_path_of out_dir) w of
          (Inl e, w1) \<Rightarrow> (Inl e, w1)
        | (Inr u, w1) \<Rightarrow> (Inr (), log (PipelineFinished ''scenes'') w1))
   \<and> main E topic ConcatStage key out_dir w
     = (Inr (), log (PipelineFinished ''concat'') (concat_final E out_dir w))
   \<and> main E topic AllStages key out_dir w
     = (case generate_full_script E topic key (script_path_of out_dir) True w of
          (Inl e, w1) \<Rightarrow> (Inl e, w1)
        | (Inr u, w1) \<Rightarrow>
            (case generate_scenes E key out_dir (script_path_of out_dir) w1 of
               (Inl e, w2) \<Rightarrow> (Inl e, w2)
             | (Inr u, w2) \<Rightarrow>
                 (Inr (), log (PipelineFinished ''all'') (concat_final E out_dir w2))))
   \<and> media_tool_runs (new_events w (snd (main E topic ScriptStage key out_dir w))) = 0
   \<and> remote_calls (new_events w (snd (main E topic ConcatStage key out_dir w))) = 0
   \<and> (read_file w ''prompts/search_prompt.txt'' = Inr template
        \<and> read_file w (path_join (parent (script_path_of out_dir)) ''search_context.txt'')
            = Inr search_results
        \<and> read_file w ''prompts/compose_prompt.txt'' = Inr compose_prompt
      \<longrightarrow> remote_calls (new_events w
              (snd (generate_full_script E topic key (script_path_of out_dir) True w))) = 1
          \<and> ((\<forall>n req. post_service E n req = Inr (Some content)) \<and> content \<noteq> []
               \<and> clean_answer (strip content) = Inr cleaned \<and> json_reformat E cleaned = Some doc
             \<longrightarrow> fst (generate_full_script E topic key (script_path_of out_dir) True w) = Inr ()
                 \<and> read_file (snd (generate_full_script E topic key (script_path_of out_dir) True w))
                      (script_path_of out_dir) = Inr doc))"
proof -
  let ?sp = "script_path_of out_dir"
  have s1: "main E topic ScriptStage key out_dir w
     = (case generate_full_script E topic key ?sp True w of
          (Inl e, w1) \<Rightarrow> (Inl e, w1)
        | (Inr u, w1) \<Rightarrow> (Inr (), log (PipelineFinished ''script'') w1))"
    by (simp add: main_def Let_def stage_name_def split: prod.splits sum.splits)
  have s2: "main E topic ScenesStage key out_dir w
     = (case generate_scenes E key out_dir ?sp w of
          (Inl e, w1) \<Rightarrow> (Inl e, w1)
        | (Inr u, w1) \<Rightarrow> (Inr (), log (PipelineFinished ''scenes'') w1))"
    by (simp add: main_def Let_def stage_name_def split: prod.splits sum.splits)
  have s3: "main E topic ConcatStage key out_dir w
     = (Inr (), log (PipelineFinished ''concat'') (concat_final E out_dir w))"
    by (simp add: main_def Let_def stage_name_def)
  have s4: "main E topic AllStages key out_dir w
     = (case generate_full_script E topic key ?sp True w of
          (Inl e, w1) \<Rightarrow> (Inl e, w1)
        | (Inr u, w1) \<Rightarrow>
            (case generate_scenes E key out_dir ?sp w1 of
               (Inl e, w2) \<Rightarrow> (Inl e, w2)
             | (Inr u, w2) \<Rightarrow>
                 (Inr (), log (PipelineFinished ''all'') (concat_final E out_dir w2))))"
    by (simp add: main_def Let_def stage_name_def split: prod.splits sum.splits)
  have "extends script_event w (snd (main E topic ScriptStage key out_dir w))"
  proof -
    have "extends script_event (snd (generate_full_script E topic key ?sp True w))
        (snd (main E topic ScriptStage key out_dir w))"
      unfolding s1
      by (cases "generate_full_script E topic key ?sp True w")
         (auto split: sum.splits intro!: extends_refl extends_log)
    with extends_generate_full_script show ?thesis
      by (rule extends_trans)
  qed
  then have s5: "media_tool_runs (new_events w (snd (main E topic ScriptStage key out_dir w))) = 0"
    by (intro media_tool_runs_script extends_new_events)
  have "extends local_event w (snd (main E topic ConcatStage key out_dir w))"
    unfolding s3 snd_conv
    by (rule extends_trans [OF extends_concat_final]) (rule extends_log, simp)
  then have s6: "remote_calls (new_events w (snd (main E topic ConcatStage key out_dir w))) = 0"
    by (intro remote_calls_local extends_new_events)
  show ?thesis
    using s1 s2 s3 s4 s5 s6 script_stage_regenerates [of w template ?sp search_results compose_prompt]
      script_stage_overwrites [of w template ?sp search_results compose_prompt E content cleaned doc]
    by (intro conjI impI) blast+
qed

text \<open>A run of the script stage on a store that holds a script already.\<close>

lemma script_present_world_files:
  "read_file script_present_world ''prompts/search_prompt.txt'' = Inr ''Search {topic}''"
  "read_file script_present_world (path_join (parent (script_path_of ''out'')) ''search_context.txt'')
     = Inr ''facts''"
  "read_file script_present_world ''prompts/compose_prompt.txt''
     = Inr ''Write about {topic} from {context}''"
  "read_file script_present_world (script_path_of ''out'') = Inr ''[old]''"
  "clean_answer (strip ''[]'') = Inr ''[]''"
  by code_simp+

theorem driver_stage_selection_witness:
  "read_file script_present_world (script_path_of ''out'') = Inr ''[old]''
   \<and> remote_calls (new_events script_present_world
        (snd (generate_full_script chat_env ''news'' ''k'' (script_path_of ''out'') True
                script_present_world))) = 1
   \<and> fst (generate_full_script chat_env ''news'' ''k'' (script_path_of ''out'') True
            script_present_world) = Inr ()
   \<and> read_file (snd (generate_full_script chat_env ''news'' ''k'' (script_path_of ''out'') True
                       script_present_world)) (script_path_of ''out'') = Inr ''[]''
   \<and> media_tool_runs (new_events script_present_world
        (snd (main chat_env ''news'' ScriptStage ''k'' ''out'' script_present_world))) = 0
   \<and> remote_calls (new_events script_present_world
        (snd (main chat_env ''news'' ConcatStage ''k'' ''out'' script_present_world))) = 0"
proof -
  have svc: "(\<forall>n req. post_service chat_env n req = Inr (Some ''[]'')) \<and> ''[]'' \<noteq> []
      \<and> json_reformat chat_env ''[]'' = Some ''[]''"
    by (simp add: chat_env_def working_env_def)
  note inst = driver_stage_selection [of chat_env "''news''" "''k''" "''out''" script_present_world
        "''Search {topic}''" "''facts''" "''Write about {topic} from {context}''" "''[]''" "''[]''"
        "''[]''"]
  have local: "media_tool_runs (new_events script_present_world
        (snd (main chat_env ''news'' ScriptStage ''k'' ''out'' script_present_world))) = 0
   \<and> remote_calls (new_events script_present_world
        (snd (main chat_env ''news'' ConcatStage ''k'' ''out'' script_present_world))) = 0"
    using inst by blast
  have "remote_calls (new_events script_present_world
        (snd (generate_full_script chat_env ''news'' ''k'' (script_path_of ''out'') True
                script_present_world))) = 1
   \<and> fst (generate_full_script chat_env ''news'' ''k'' (script_path_of ''out'') True
            script_present_world) = Inr ()
   \<and> read_file (snd (generate_full_script chat_env ''news'' ''k'' (script_path_of ''out'') True
                       script_present_world)) (script_path_of ''out'') = Inr ''[]''"
    using inst script_present_world_files(1,2,3,5) svc by blast
  with local script_present_world_files(4) show ?thesis
    by blast
qed

text \<open>
  C8 as stated fails: the script artifact exists, and the script stage still sends the
  generation request and replaces the artifact by the new answer.
\<close>

theorem script_stage_counterexample:
  "exists script_present_world (script_path_of ''out'')
   \<and> read_file script_present_world (script_path_of ''out'') = Inr ''[old]''
   \<and> new_events script_present_world
        (snd (main chat_env ''news'' ScriptStage ''k'' ''out'' script_present_world))
       = [Log (Phase1Searching ''news''), Log Phase2Generating,
          Remote (ChatPost ''gemini-2.5-flash''
            [(''user'', ''Write about news from facts'' @ [CHR 0x0A, CHR 0x0A]
                @ ''Here is the factual context gathered from the web:'' @ [CHR 0x0A] @ ''facts'')]
            False 10000),
          Log (Phase2Saved ''out/scripts/script.json''), Log (PipelineFinished ''script'')]
   \<and> read_file (snd (main chat_env ''news'' ScriptStage ''k'' ''out'' script_present_world))
        (script_path_of ''out'') = Inr ''[]''"
  by code_simp

end
